theory Spec2Isabelle
  imports Main
begin

section \<open>Go values\<close>

text \<open>
  The package govw (\<^verbatim>\<open>utils.go\<close> and the daemon file) supervises an external
  \<^verbatim>\<open>vw\<close> process.  Go's \<^verbatim>\<open>int\<close> is modelled as \<^typ>\<open>int\<close> with the 64-bit
  wrap-around written out where an addition or subtraction can overflow; a \<^verbatim>\<open>byte\<close> and a
  character of a Go string are both a \<^typ>\<open>char\<close> (8 bits); an \<^verbatim>\<open>error\<close> value is its
  message.
\<close>

type_synonym byte = char
type_synonym error = string

definition int64 :: "int \<Rightarrow> int" where
  "int64 x = (x + 2 ^ 63) mod 2 ^ 64 - 2 ^ 63"

text \<open>Go's \<^verbatim>\<open>/\<close> on integers truncates towards zero.\<close>

definition quot :: "int \<Rightarrow> int \<Rightarrow> int" where
  "quot a b = (if (a < 0) = (b < 0) then \<bar>a\<bar> div \<bar>b\<bar> else - (\<bar>a\<bar> div \<bar>b\<bar>))"

text \<open>\<^verbatim>\<open>const DefaultPort = 26542\<close> and \<^verbatim>\<open>const endOfLine = 10\<close>.\<close>

definition DefaultPort :: int where
  "DefaultPort = 26542"

definition endOfLine :: byte where
  "endOfLine = CHR 0x0A"

subsection \<open>The library functions the package calls on strings\<close>

text \<open>\<^verbatim>\<open>fmt.Sprintf("%d", n)\<close>: the decimal digits of \<open>n\<close>, after a minus sign when negative.\<close>

definition digit_char :: "nat \<Rightarrow> char" where
  "digit_char n = ''0123456789'' ! n"

fun digits :: "nat \<Rightarrow> string" where
  "digits n = (if n < 10 then [digit_char n] else digits (n div 10) @ [digit_char (n mod 10)])"

declare digits.simps [simp del]

definition Sprintf_d :: "int \<Rightarrow> string" where
  "Sprintf_d n = (if n < 0 then CHR ''-'' # digits (nat (- n)) else digits (nat n))"

text \<open>\<^verbatim>\<open>strings.Trim(s, "\n")\<close>: \<open>s\<close> without its leading and trailing newlines.\<close>

definition Trim_newlines :: "string \<Rightarrow> string" where
  "Trim_newlines s =
     rev (dropWhile (\<lambda>c. c = CHR 0x0A) (rev (dropWhile (\<lambda>c. c = CHR 0x0A) s)))"

text \<open>
  \<^verbatim>\<open>strconv.Atoi\<close>: an optional sign and at least one decimal digit, nothing else; a value
  outside the 64-bit range is an error as well.
\<close>

definition is_digit :: "char \<Rightarrow> bool" where
  "is_digit c = (48 \<le> (of_char c :: nat) \<and> (of_char c :: nat) \<le> 57)"

definition digit_val :: "char \<Rightarrow> int" where
  "digit_val c = int (of_char c) - 48"

definition Atoi :: "string \<Rightarrow> error + int" where
  "Atoi s =
     (let neg = (s \<noteq> [] \<and> hd s = CHR ''-'');
          ds = (if s \<noteq> [] \<and> (hd s = CHR ''-'' \<or> hd s = CHR ''+'') then tl s else s)
      in if ds = [] \<or> \<not> list_all is_digit ds then Inl ''invalid syntax''
         else
           let n = foldl (\<lambda>a c. a * 10 + digit_val c) 0 ds;
               v = (if neg then - n else n)
           in if v < - (2 ^ 63) \<or> 2 ^ 63 - 1 < v then Inl ''value out of range'' else Inr v)"

section \<open>Data model\<close>

type_synonym addr = nat
type_synonym conn = nat

text \<open>
  \<^verbatim>\<open>type VWModel struct\<close>: the modification time is the value \<^verbatim>\<open>os.Stat\<close> reported,
  compared with \<^verbatim>\<open>!=\<close> as a whole.
\<close>

record VWModel =
  Path :: string
  ModTime :: int
  Updatable :: bool

text \<open>
  \<^verbatim>\<open>type VWDaemon struct\<close>.  \<open>Model\<close> is a pointer into the store of models and
  \<open>TCPQueue\<close> a channel reference; \<open>None\<close> is nil for both.
\<close>

text \<open>
  Modelled from the spec: the field \<open>Quite\<close>, and only it.  \<^verbatim>\<open>RecreateDaemon\<close> reads
  \<^verbatim>\<open>d.Quite\<close> and passes it to \<^verbatim>\<open>NewDaemon\<close> as the sixth of seven arguments, but the
  struct declaration and the constructor at hand have no such field or parameter; the spec
  lists a quiet flag among the fields of the Daemon Handle.  The other fields are those of
  the declaration.
\<close>

record VWDaemon =
  BinPath :: string
  Port :: int
  Children :: int
  Model :: "addr option"
  Test :: bool
  Quite :: bool
  TCPQueue :: "addr option"

text \<open>A buffered channel of connections: \<^verbatim>\<open>make(chan *net.TCPConn, n)\<close>.\<close>

record conn_chan =
  cap :: nat
  buf :: "conn list"

text \<open>What a pooled connection answers to one request.\<close>

datatype reply = Write_fails | Read_fails | Line string

text \<open>What connecting to a port yields: \<^verbatim>\<open>net.ResolveTCPAddr\<close>, then \<^verbatim>\<open>net.DialTCP\<close>.\<close>

datatype dialled = Resolve_fails | Dial_fails | Connected conn

text \<open>
  The ways in which a call does not return: \<^verbatim>\<open>log.Fatal\<close> exits the process at once,
  a panic unwinds through the deferred calls, and a channel operation that can never proceed
  blocks for ever.
\<close>

datatype failure =
    Fatal_Stat
  | Fatal_Resolve
  | Fatal_Dial
  | Fatal_Start_Failed
  | Fatal_Stop_Failed
  | Fatal_Workers_Count
  | Fatal_Write
  | Fatal_Read
  | Panic_Command
  | Panic_Stat
  | Panic_Index
  | Panic_Nil
  | Panic_Makechan
  | Panic_Encode
  | Blocked

fun is_panic :: "failure \<Rightarrow> bool" where
  "is_panic Panic_Command = True"
| "is_panic Panic_Stat = True"
| "is_panic Panic_Index = True"
| "is_panic Panic_Nil = True"
| "is_panic Panic_Makechan = True"
| "is_panic Panic_Encode = True"
| "is_panic _ = False"

text \<open>
  The state: the three stores the pointers of the program point into, the goroutines started
  on a handle, and the operating system.  The operating system is a script: the \<open>n\<close>-th
  call of each kind gets the \<open>n\<close>-th answer, so every behaviour of the processes, the file
  system and the network is some state.  \<open>issued\<close> and \<open>wire\<close> log the shell commands given
  to \<^verbatim>\<open>sh -c\<close> and the payloads written to connections, the latest last.
\<close>

record state =
  daemons :: "addr \<rightharpoonup> VWDaemon"
  models :: "addr \<rightharpoonup> VWModel"
  chans :: "addr \<rightharpoonup> conn_chan"
  fresh :: addr
  watchers :: "addr list"
  issued :: "(string \<times> bool) list"
  wire :: "(conn \<times> byte list) list"
  outputs :: "nat \<Rightarrow> error + string"
  n_outputs :: nat
  starts :: "nat \<Rightarrow> error option"
  n_starts :: nat
  stats :: "nat \<Rightarrow> string \<Rightarrow> error + int"
  n_stats :: nat
  dials :: "nat \<Rightarrow> int \<Rightarrow> dialled"
  n_dials :: nat
  replies :: "nat \<Rightarrow> reply"
  n_replies :: nat

type_synonym 'a result = "(failure + 'a) \<times> state"

section \<open>Running shell commands\<close>

text \<open>
  \<^verbatim>\<open>runCommand\<close>: with \<open>quiet\<close> the command is only started, otherwise its output is
  awaited.  The \<^verbatim>\<open>default\<close> branch of the switch on a boolean cannot be reached.
\<close>

definition runCommand :: "string \<Rightarrow> bool \<Rightarrow> state \<Rightarrow> (error + byte list) \<times> state" where
  "runCommand command quiet st =
     (if \<not> quiet then
        (case outputs st (n_outputs st) of
           Inl err \<Rightarrow> Inl err
         | Inr val \<Rightarrow> Inr val,
         st\<lparr>issued := issued st @ [(command, quiet)], n_outputs := n_outputs st + 1\<rparr>)
      else
        (case starts st (n_starts st) of
           Some err \<Rightarrow> Inl err
         | None \<Rightarrow> Inr [],
         st\<lparr>issued := issued st @ [(command, quiet)], n_starts := n_starts st + 1\<rparr>))"

section \<open>Counting workers and the health check\<close>

text \<open>
  \<^verbatim>\<open>WorkersCount\<close> returns a pair as in Go: on an error the count is 0.  One is subtracted
  from the parsed count for the \<^verbatim>\<open>sh -c\<close> process itself.
\<close>

definition count_of_output :: "error + byte list \<Rightarrow> int \<times> error option" where
  "count_of_output r =
     (case r of
        Inl err \<Rightarrow> (0, Some err)
      | Inr res \<Rightarrow>
          (case Atoi (Trim_newlines res) of
             Inl err \<Rightarrow> (0, Some err)
           | Inr count \<Rightarrow> (int64 (count - 1), None)))"

definition count_command :: "VWDaemon \<Rightarrow> string" where
  "count_command vw =
     ''pgrep -f '' @ [CHR 0x27] @ ''vw.*--port '' @ Sprintf_d (Port vw) @ [CHR 0x27] @ '' | wc -l''"

definition WorkersCount :: "VWDaemon \<Rightarrow> state \<Rightarrow> (int \<times> error option) \<times> state" where
  "WorkersCount vw st =
     (let cmd = count_command vw;
          (r, st') = runCommand cmd False st
      in (count_of_output r, st'))"

text \<open>
  \<^verbatim>\<open>IsExist\<close>: the loop \<^verbatim>\<open>for i := 0; i < tries; i++\<close>; \<open>prev\<close> is the pair
  \<^verbatim>\<open>count, err\<close> as the latest poll left it.  \<^verbatim>\<open>time.Sleep\<close> only delays.  The error is
  looked at once, after the loop.
\<close>

function IsExist_loop ::
  "VWDaemon \<Rightarrow> int \<Rightarrow> int \<Rightarrow> int \<times> error option \<Rightarrow> state \<Rightarrow> bool result" where
  "IsExist_loop vw tries i prev st =
     (if i < tries then
        (let (r, st') = WorkersCount vw st
         in if fst r = int64 (Children vw + 1) then (Inr True, st')
            else IsExist_loop vw tries (i + 1) r st')
      else
        (case snd prev of
           Some err \<Rightarrow> (Inl Fatal_Workers_Count, st)
         | None \<Rightarrow> (Inr False, st)))"
  by pat_completeness auto
termination
  by (relation "measure (\<lambda>(vw, tries, i, prev, st). nat (tries - i))") auto

declare IsExist_loop.simps [simp del]

definition IsExist :: "VWDaemon \<Rightarrow> int \<Rightarrow> int \<Rightarrow> state \<Rightarrow> bool result" where
  "IsExist vw tries delay st = IsExist_loop vw tries 0 (0, None) st"

text \<open>The pair the \<open>k\<close>-th poll from state \<open>st\<close> on will yield.\<close>

definition poll :: "state \<Rightarrow> nat \<Rightarrow> int \<times> error option" where
  "poll st k = count_of_output (outputs st (n_outputs st + k))"

section \<open>The connection pool\<close>

text \<open>
  Sending to and receiving from a buffered channel, for a goroutine on its own: a send needs
  room in the buffer, a receive needs an element; \<open>None\<close> when the operation has to wait.
\<close>

definition send_chan :: "conn \<Rightarrow> conn_chan \<Rightarrow> conn_chan option" where
  "send_chan c ch = (if length (buf ch) < cap ch then Some (ch\<lparr>buf := buf ch @ [c]\<rparr>) else None)"

definition recv_chan :: "conn_chan \<Rightarrow> (conn \<times> conn_chan) option" where
  "recv_chan ch = (case buf ch of [] \<Rightarrow> None | c # cs \<Rightarrow> Some (c, ch\<lparr>buf := cs\<rparr>))"

text \<open>The same on a channel reference; on the nil channel both wait for ever.\<close>

definition chan_send :: "addr option \<Rightarrow> conn \<Rightarrow> state \<Rightarrow> unit result" where
  "chan_send q c st =
     (case q of
        None \<Rightarrow> (Inl Blocked, st)
      | Some a \<Rightarrow>
          (case chans st a of
             None \<Rightarrow> (Inl Blocked, st)
           | Some ch \<Rightarrow>
               (case send_chan c ch of
                  None \<Rightarrow> (Inl Blocked, st)
                | Some ch' \<Rightarrow> (Inr (), st\<lparr>chans := (chans st)(a \<mapsto> ch')\<rparr>))))"

definition chan_recv :: "addr option \<Rightarrow> state \<Rightarrow> conn result" where
  "chan_recv q st =
     (case q of
        None \<Rightarrow> (Inl Blocked, st)
      | Some a \<Rightarrow>
          (case chans st a of
             None \<Rightarrow> (Inl Blocked, st)
           | Some ch \<Rightarrow>
               (case recv_chan ch of
                  None \<Rightarrow> (Inl Blocked, st)
                | Some (c, ch') \<Rightarrow> (Inr c, st\<lparr>chans := (chans st)(a \<mapsto> ch')\<rparr>))))"

text \<open>\<^verbatim>\<open>getTCPConn\<close>: both errors are fatal.\<close>

definition getTCPConn :: "VWDaemon \<Rightarrow> state \<Rightarrow> conn result" where
  "getTCPConn vw st =
     (case dials st (n_dials st) (Port vw) of
        Resolve_fails \<Rightarrow> Inl Fatal_Resolve
      | Dial_fails \<Rightarrow> Inl Fatal_Dial
      | Connected c \<Rightarrow> Inr c,
      st\<lparr>n_dials := n_dials st + 1\<rparr>)"

text \<open>\<^verbatim>\<open>makeTCPConnQueue\<close>: \<^verbatim>\<open>size := vw.Children / 2\<close> connections are sent to the queue
  (\<open>sz\<close> is \<^verbatim>\<open>size\<close>).\<close>

function fill_loop :: "VWDaemon \<Rightarrow> int \<Rightarrow> int \<Rightarrow> state \<Rightarrow> unit result" where
  "fill_loop vw sz i st =
     (if i < sz then
        (case getTCPConn vw st of
           (Inl f, s1) \<Rightarrow> (Inl f, s1)
         | (Inr c, s1) \<Rightarrow>
             (case chan_send (TCPQueue vw) c s1 of
                (Inl f, s2) \<Rightarrow> (Inl f, s2)
              | (Inr u, s2) \<Rightarrow> fill_loop vw sz (i + 1) s2))
      else (Inr (), st))"
  by pat_completeness auto
termination
  by (relation "measure (\<lambda>(vw, sz, i, st). nat (sz - i))") auto

declare fill_loop.simps [simp del]

definition makeTCPConnQueue :: "VWDaemon \<Rightarrow> state \<Rightarrow> unit result" where
  "makeTCPConnQueue vw st = fill_loop vw (quot (Children vw) 2) 0 st"

section \<open>The daemon handle\<close>

definition os_Stat :: "string \<Rightarrow> state \<Rightarrow> (error + int) \<times> state" where
  "os_Stat name st = (stats st (n_stats st) name, st\<lparr>n_stats := n_stats st + 1\<rparr>)"

text \<open>
  \<^verbatim>\<open>NewDaemon\<close> stats the model file (fatal when that fails), allocates the model and
  the handle and, when \<open>updatable\<close>, starts the goroutine \<^verbatim>\<open>modelFileChecker\<close> on the new
  handle.
\<close>

text \<open>
  Modelled from the spec: the parameter \<open>quite\<close>, stored in the field \<open>Quite\<close>, and only
  it; the constructor at hand takes six arguments, its caller \<^verbatim>\<open>RecreateDaemon\<close> gives
  seven.  The rest is the constructor as it is written.
\<close>

definition NewDaemon ::
  "string \<Rightarrow> int \<Rightarrow> int \<Rightarrow> string \<Rightarrow> bool \<Rightarrow> bool \<Rightarrow> bool \<Rightarrow> state \<Rightarrow> addr result" where
  "NewDaemon binPath port children modelPath test quite updatable st =
     (case os_Stat modelPath st of
        (Inl err, s1) \<Rightarrow> (Inl Fatal_Stat, s1)
      | (Inr info, s1) \<Rightarrow>
          (let m = fresh s1;
               daemon = m + 1;
               s2 = s1\<lparr>models := (models s1)(m \<mapsto>
                           \<lparr>Path = modelPath, ModTime = info, Updatable = updatable\<rparr>),
                        daemons := (daemons s1)(daemon \<mapsto>
                           \<lparr>BinPath = binPath, Port = port, Children = children,
                            Model = Some m, Test = test, Quite = quite, TCPQueue = None\<rparr>),
                        fresh := daemon + 1\<rparr>
           in (Inr daemon,
               if updatable then s2\<lparr>watchers := watchers s2 @ [daemon]\<rparr> else s2)))"

text \<open>\<^verbatim>\<open>vw.Model\<close> followed: \<open>None\<close> when the pointer is nil.\<close>

definition model_of :: "state \<Rightarrow> VWDaemon \<Rightarrow> VWModel option" where
  "model_of st vw = (case Model vw of None \<Rightarrow> None | Some m \<Rightarrow> models st m)"

text \<open>\<^verbatim>\<open>Stop\<close>: \<^verbatim>\<open>pkill\<close>, then the health check must find the daemon gone.\<close>

definition stop_command :: "VWDaemon \<Rightarrow> string" where
  "stop_command vw =
     ''pkill -9 -f '' @ [CHR 0x22] @ ''vw.*--port '' @ Sprintf_d (Port vw) @ [CHR 0x22]"

definition Stop :: "VWDaemon \<Rightarrow> state \<Rightarrow> unit result" where
  "Stop vw st =
     (let cmd = stop_command vw
      in case runCommand cmd True st of
           (Inl err, s1) \<Rightarrow> (Inl Panic_Command, s1)
         | (Inr out, s1) \<Rightarrow>
             (case IsExist vw 5 500 s1 of
                (Inl f, s2) \<Rightarrow> (Inl f, s2)
              | (Inr True, s2) \<Rightarrow> (Inl Fatal_Stop_Failed, s2)
              | (Inr False, s2) \<Rightarrow> (Inr (), s2)))"

text \<open>The command line \<^verbatim>\<open>Run\<close> builds in \<^verbatim>\<open>cmd\<close>.\<close>

definition start_command :: "VWDaemon \<Rightarrow> VWModel \<Rightarrow> string" where
  "start_command vw m =
     (let cmd = ''vw --daemon --threads --quiet --port '' @ Sprintf_d (Port vw)
                  @ '' --num_children '' @ Sprintf_d (Children vw);
          cmd = (if Path m \<noteq> [] then cmd @ '' -i  '' @ Path m else cmd);
          cmd = (if Test vw then cmd @ '' -t'' else cmd)
      in cmd)"

text \<open>
  \<^verbatim>\<open>Run\<close>, a method on the pointer \<open>a\<close>: it assigns \<^verbatim>\<open>vw.TCPQueue\<close>.  The calls before
  the assignment do not write to the handle, which is read once.  \<^verbatim>\<open>make\<close> panics on a
  negative size.
\<close>

definition Run :: "addr \<Rightarrow> state \<Rightarrow> unit result" where
  "Run a st =
     (case daemons st a of
        None \<Rightarrow> (Inl Panic_Nil, st)
      | Some vw \<Rightarrow>
     (case IsExist vw 3 100 st of
        (Inl f, s1) \<Rightarrow> (Inl f, s1)
      | (Inr running, s1) \<Rightarrow>
     (case (if running then Stop vw s1 else (Inr (), s1)) of
        (Inl f, s2) \<Rightarrow> (Inl f, s2)
      | (Inr u, s2) \<Rightarrow>
     (case model_of s2 vw of
        None \<Rightarrow> (Inl Panic_Nil, s2)
      | Some m \<Rightarrow>
     (case runCommand (start_command vw m) True s2 of
        (Inl err, s3) \<Rightarrow> (Inl Panic_Command, s3)
      | (Inr out, s3) \<Rightarrow>
     (case IsExist vw 5 500 s3 of
        (Inl f, s4) \<Rightarrow> (Inl f, s4)
      | (Inr False, s4) \<Rightarrow> (Inl Fatal_Start_Failed, s4)
      | (Inr True, s4) \<Rightarrow>
          (if quot (Children vw) 2 < 0 then (Inl Panic_Makechan, s4)
           else
             let c = fresh s4;
                 vw' = vw\<lparr>TCPQueue := Some c\<rparr>;
                 s5 = s4\<lparr>chans := (chans s4)(c \<mapsto>
                             \<lparr>cap = nat (quot (Children vw) 2), buf = []\<rparr>),
                          fresh := c + 1,
                          daemons := (daemons s4)(a \<mapsto> vw')\<rparr>
             in makeTCPConnQueue vw' s5)))))))"

text \<open>
  \<^verbatim>\<open>Predict\<close>.  Lines 142 to 144 first: the last byte is read, which panics on the empty
  slice, and the newline is appended when it is not there.
\<close>

definition line_terminated :: "byte list \<Rightarrow> failure + byte list" where
  "line_terminated pData =
     (if pData = [] then Inl Panic_Index
      else if last pData \<noteq> endOfLine then Inr (pData @ [endOfLine])
      else Inr pData)"

text \<open>\<^verbatim>\<open>conn.Write(pData)\<close>, then \<^verbatim>\<open>bufio.NewReader(conn).ReadString('\n')\<close>.\<close>

definition exchange :: "conn \<Rightarrow> byte list \<Rightarrow> state \<Rightarrow> string result" where
  "exchange c pData st =
     (case replies st (n_replies st) of
        Write_fails \<Rightarrow> (Inl Fatal_Write, st\<lparr>n_replies := n_replies st + 1\<rparr>)
      | Read_fails \<Rightarrow>
          (Inl Fatal_Read, st\<lparr>n_replies := n_replies st + 1, wire := wire st @ [(c, pData)]\<rparr>)
      | Line res \<Rightarrow>
          (Inr res, st\<lparr>n_replies := n_replies st + 1, wire := wire st @ [(c, pData)]\<rparr>))"

text \<open>\<^verbatim>\<open>ParsePredictResult\<close> is not part of the files at hand: it is the parameter \<open>parse\<close>.\<close>

definition Predict :: "(string \<Rightarrow> 'p) \<Rightarrow> addr \<Rightarrow> byte list \<Rightarrow> state \<Rightarrow> 'p result" where
  "Predict parse a pData st =
     (case line_terminated pData of
        Inl f \<Rightarrow> (Inl f, st)
      | Inr pData' \<Rightarrow>
     (case daemons st a of
        None \<Rightarrow> (Inl Panic_Nil, st)
      | Some vw \<Rightarrow>
     (case chan_recv (TCPQueue vw) st of
        (Inl f, s1) \<Rightarrow> (Inl f, s1)
      | (Inr c, s1) \<Rightarrow>
     (case exchange c pData' s1 of
        (Inl f, s2) \<Rightarrow> (Inl f, s2)
      | (Inr res, s2) \<Rightarrow>
     (case chan_send (TCPQueue vw) c s2 of
        (Inl f, s3) \<Rightarrow> (Inl f, s3)
      | (Inr u, s3) \<Rightarrow> (Inr (parse res), s3))))))"

text \<open>
  \<^verbatim>\<open>Predict\<close> in the two parts between which other goroutines run: lines 142 to 146, up
  to the checkout \<^verbatim>\<open>conn := <-vw.TCPQueue\<close>, and lines 148 to 160, from the write to the
  checkin \<^verbatim>\<open>vw.TCPQueue <- conn\<close> and the return.  The second part reads \<^verbatim>\<open>vw.TCPQueue\<close>
  when it gets there.
\<close>

definition Predict_checkout :: "addr \<Rightarrow> byte list \<Rightarrow> state \<Rightarrow> (conn \<times> byte list) result" where
  "Predict_checkout a pData st =
     (case line_terminated pData of
        Inl f \<Rightarrow> (Inl f, st)
      | Inr pData' \<Rightarrow>
     (case daemons st a of
        None \<Rightarrow> (Inl Panic_Nil, st)
      | Some vw \<Rightarrow>
     (case chan_recv (TCPQueue vw) st of
        (Inl f, s1) \<Rightarrow> (Inl f, s1)
      | (Inr c, s1) \<Rightarrow> (Inr (c, pData'), s1))))"

definition Predict_checkin ::
  "(string \<Rightarrow> 'p) \<Rightarrow> addr \<Rightarrow> conn \<Rightarrow> byte list \<Rightarrow> state \<Rightarrow> 'p result" where
  "Predict_checkin parse a c pData' st =
     (case exchange c pData' st of
        (Inl f, s2) \<Rightarrow> (Inl f, s2)
      | (Inr res, s2) \<Rightarrow>
     (case daemons s2 a of
        None \<Rightarrow> (Inl Panic_Nil, s2)
      | Some vw \<Rightarrow>
     (case chan_send (TCPQueue vw) c s2 of
        (Inl f, s3) \<Rightarrow> (Inl f, s3)
      | (Inr u, s3) \<Rightarrow> (Inr (parse res), s3))))"

text \<open>
  Concurrent calls of \<^verbatim>\<open>Predict\<close> on the handle at \<open>a\<close>, interleaved: a goroutine enters
  with a request and runs to its checkout, or a call that holds a connection (the \<open>i\<close>-th
  of those in flight) runs on to its return.  A goroutine that has to wait leaves everything
  as it is; a panic or \<^verbatim>\<open>log.Fatal\<close> ends the process, and with it the run.
\<close>

datatype call_op = Call "byte list" | Return nat

datatype 'c move = Stays | Ends | Moves 'c

type_synonym calls = "state \<times> (conn \<times> byte list) list"

fun calls_step :: "(string \<Rightarrow> 'p) \<Rightarrow> addr \<Rightarrow> call_op \<Rightarrow> calls \<Rightarrow> calls move" where
  "calls_step parse a (Call pData) (st, inflight) =
     (case Predict_checkout a pData st of
        (Inr h, s1) \<Rightarrow> Moves (s1, inflight @ [h])
      | (Inl f, s1) \<Rightarrow> if f = Blocked then Stays else Ends)"
| "calls_step parse a (Return i) (st, inflight) =
     (if i < length inflight then
        (case Predict_checkin parse a (fst (inflight ! i)) (snd (inflight ! i)) st of
           (Inr r, s1) \<Rightarrow> Moves (s1, take i inflight @ drop (Suc i) inflight)
         | (Inl f, s1) \<Rightarrow> if f = Blocked then Stays else Ends)
      else Stays)"

fun calls_run :: "(string \<Rightarrow> 'p) \<Rightarrow> addr \<Rightarrow> call_op list \<Rightarrow> calls \<Rightarrow> calls" where
  "calls_run parse a [] cfg = cfg"
| "calls_run parse a (x # xs) cfg =
     (case calls_step parse a x cfg of
        Stays \<Rightarrow> calls_run parse a xs cfg
      | Ends \<Rightarrow> cfg
      | Moves cfg' \<Rightarrow> calls_run parse a xs cfg')"

text \<open>
  \<^verbatim>\<open>DeepCopy\<close>: the gob encoding of the handle, decoded into a new handle.  The encoder
  panics on a nil pointer; on a handle it follows \<open>Model\<close> and leaves the channel out, so
  the copy has a model of its own and a nil queue.
\<close>

definition DeepCopy :: "addr \<Rightarrow> state \<Rightarrow> addr result" where
  "DeepCopy a st =
     (case daemons st a of
        None \<Rightarrow> (Inl Panic_Encode, st)
      | Some vw \<Rightarrow>
          (case model_of st vw of
             None \<Rightarrow>
               (Inr (fresh st),
                st\<lparr>daemons := (daemons st)(fresh st \<mapsto> vw\<lparr>Model := None, TCPQueue := None\<rparr>),
                   fresh := fresh st + 1\<rparr>)
           | Some m \<Rightarrow>
               (Inr (fresh st + 1),
                st\<lparr>models := (models st)(fresh st \<mapsto> m),
                   daemons := (daemons st)(fresh st + 1 \<mapsto>
                      vw\<lparr>Model := Some (fresh st), TCPQueue := None\<rparr>),
                   fresh := fresh st + 2\<rparr>)))"

text \<open>\<^verbatim>\<open>IsChanged\<close>, a method on a pointer to the model; a failing stat panics.\<close>

definition IsChanged :: "addr option \<Rightarrow> state \<Rightarrow> bool result" where
  "IsChanged model st =
     (case (case model of None \<Rightarrow> None | Some m \<Rightarrow> models st m) of
        None \<Rightarrow> (Inl Panic_Nil, st)
      | Some m \<Rightarrow>
          (case os_Stat (Path m) st of
             (Inl err, s1) \<Rightarrow> (Inl Panic_Stat, s1)
           | (Inr info, s1) \<Rightarrow> (Inr (ModTime m \<noteq> info), s1)))"

section \<open>Recreating the daemon\<close>

text \<open>Lines 36 to 40 of \<^verbatim>\<open>RecreateDaemon\<close>: the port of the new daemon.\<close>

definition other_port :: "VWDaemon \<Rightarrow> int" where
  "other_port d = (if Port d = DefaultPort then Port d + 1 else DefaultPort)"

text \<open>
  Lines 36 to 48: the new daemon is made and run, then \<^verbatim>\<open>*d = *newVW\<close> copies its fields
  into the handle \<open>d\<close> points to.  \<^verbatim>\<open>Run\<close> returns nil whenever it returns.
\<close>

definition Recreate_body :: "addr \<Rightarrow> state \<Rightarrow> unit result" where
  "Recreate_body d st =
     (case daemons st d of
        None \<Rightarrow> (Inl Panic_Nil, st)
      | Some old \<Rightarrow>
     (case model_of st old of
        None \<Rightarrow> (Inl Panic_Nil, st)
      | Some m \<Rightarrow>
     (case NewDaemon (BinPath old) (other_port old) (Children old) (Path m) (Test old)
             (Quite old) (Updatable m) st of
        (Inl f, s1) \<Rightarrow> (Inl f, s1)
      | (Inr newVW, s1) \<Rightarrow>
     (case Run newVW s1 of
        (Inl f, s2) \<Rightarrow> (Inl f, s2)
      | (Inr u, s2) \<Rightarrow>
     (case daemons s2 newVW of
        None \<Rightarrow> (Inl Panic_Nil, s2)
      | Some new \<Rightarrow> (Inr (), s2\<lparr>daemons := (daemons s2)(d \<mapsto> new)\<rparr>))))))"

text \<open>
  \<^verbatim>\<open>defer\<close>: the deferred call runs when the body returns and when it panics, not when
  the process exits or the goroutine is stuck; a panic goes on after it, unless the deferred
  call fails itself.
\<close>

definition deferred :: "(state \<Rightarrow> unit result) \<Rightarrow> unit result \<Rightarrow> unit result" where
  "deferred g r =
     (case r of
        (Inr u, s) \<Rightarrow> g s
      | (Inl f, s) \<Rightarrow>
          (if is_panic f then
             (case g s of
                (Inl f', s') \<Rightarrow> (Inl f', s')
              | (Inr u, s') \<Rightarrow> (Inl f, s'))
           else (Inl f, s)))"

definition Stop_at :: "addr \<Rightarrow> state \<Rightarrow> unit result" where
  "Stop_at a st = (case daemons st a of None \<Rightarrow> (Inl Panic_Nil, st) | Some vw \<Rightarrow> Stop vw st)"

definition RecreateDaemon :: "addr \<Rightarrow> state \<Rightarrow> unit result" where
  "RecreateDaemon d st =
     (case DeepCopy d st of
        (Inl f, s1) \<Rightarrow> (Inl f, s1)
      | (Inr tmpVW, s1) \<Rightarrow> deferred (Stop_at tmpVW) (Recreate_body d s1))"

text \<open>One round of the loop of \<^verbatim>\<open>modelFileChecker\<close>, which has no exit.\<close>

definition modelFileChecker_round :: "addr \<Rightarrow> state \<Rightarrow> unit result" where
  "modelFileChecker_round vw st =
     (case daemons st vw of
        None \<Rightarrow> (Inl Panic_Nil, st)
      | Some d \<Rightarrow>
          (case IsChanged (Model d) st of
             (Inl f, s1) \<Rightarrow> (Inl f, s1)
           | (Inr changed, s1) \<Rightarrow> (if changed then RecreateDaemon vw s1 else (Inr (), s1))))"

section \<open>A running example\<close>

text \<open>
  A handle on the default port with two workers and a model file that has been touched.
  The process table answers \<^verbatim>\<open>1\<close> (the shell alone, no daemon) except at the fourth and
  the thirteenth query, where it answers \<^verbatim>\<open>4\<close>: the daemon and its two workers.
\<close>

definition example_model :: VWModel where
  "example_model = \<lparr>Path = ''/srv/model.vw'', ModTime = 100, Updatable = True\<rparr>"

definition example_daemon :: VWDaemon where
  "example_daemon =
     \<lparr>BinPath = ''/opt/vw/bin/vw'', Port = 26542, Children = 2, Model = Some 0, Test = True,
      Quite = True, TCPQueue = None\<rparr>"

definition example_state :: state where
  "example_state =
     \<lparr>daemons = [0 \<mapsto> example_daemon], models = [0 \<mapsto> example_model], chans = Map.empty,
      fresh = 2, watchers = [], issued = [], wire = [],
      outputs = (\<lambda>n. if n = 3 \<or> n = 12 then Inr (''4'' @ [CHR 0x0A]) else Inr (''1'' @ [CHR 0x0A])),
      n_outputs = 0,
      starts = (\<lambda>n. None), n_starts = 0,
      stats = (\<lambda>n name. Inr 200), n_stats = 0,
      dials = (\<lambda>n port. Connected n), n_dials = 0,
      replies = (\<lambda>n. Line (''0.5 tag1'' @ [CHR 0x0A])), n_replies = 0\<rparr>"

text \<open>
  Two process tables for the health check: one whose first query fails, and one on which
  every query fails.
\<close>

definition flaky_state :: state where
  "flaky_state =
     example_state\<lparr>outputs :=
       (\<lambda>n. if n = 0 then Inl ''exit status 1'' else Inr (''4'' @ [CHR 0x0A]))\<rparr>"

definition broken_state :: state where
  "broken_state = example_state\<lparr>outputs := (\<lambda>n. Inl ''exit status 127'')\<rparr>"

text \<open>A process table on which the daemon never comes up.\<close>

definition idle_state :: state where
  "idle_state = example_state\<lparr>outputs := (\<lambda>n. Inr (''1'' @ [CHR 0x0A]))\<rparr>"

text \<open>
  The state after \<open>n\<close> process-count queries for \<open>vw\<close>, and after a command was
  started.
\<close>

definition polled :: "VWDaemon \<Rightarrow> nat \<Rightarrow> state \<Rightarrow> state" where
  "polled vw n st =
     st\<lparr>issued := issued st @ replicate n (count_command vw, False),
        n_outputs := n_outputs st + n\<rparr>"

definition started :: "string \<Rightarrow> state \<Rightarrow> state" where
  "started cmd st = st\<lparr>issued := issued st @ [(cmd, True)], n_starts := n_starts st + 1\<rparr>"

text \<open>What a holder of the pointer \<open>d\<close> reads: the model of the handle, and its time.\<close>

definition handle_model :: "state \<Rightarrow> addr \<Rightarrow> VWModel option" where
  "handle_model st d = (case daemons st d of None \<Rightarrow> None | Some vw \<Rightarrow> model_of st vw)"

definition stored_time :: "state \<Rightarrow> addr \<Rightarrow> int option" where
  "stored_time st d = map_option ModTime (handle_model st d)"

text \<open>
  The command line in the words of the specification, to compare with \<open>start_command\<close>:
  the binary path, the fixed options, the model after \<^verbatim>\<open>-i\<close> when there is one, and
  \<^verbatim>\<open>-t\<close> in test mode.
\<close>

definition spec_command :: "VWDaemon \<Rightarrow> VWModel \<Rightarrow> string" where
  "spec_command vw m =
     BinPath vw @ '' --daemon --threads --quiet --port '' @ Sprintf_d (Port vw)
       @ '' --num_children '' @ Sprintf_d (Children vw)
       @ (if Path m \<noteq> [] then '' -i '' @ Path m else [])
       @ (if Test vw then '' -t'' else [])"

section \<open>The health check polls\<close>

lemmas count_eval =
  count_of_output_def Atoi_def Trim_newlines_def is_digit_def digit_val_def int64_def

lemma WorkersCount_eq:
  "WorkersCount vw st =
     (poll st 0,
      st\<lparr>issued := issued st @ [(count_command vw, False)],
         n_outputs := n_outputs st + 1\<rparr>)"
  by (simp add: WorkersCount_def runCommand_def poll_def split: sum.splits)

lemma poll_after_WorkersCount: "poll (snd (WorkersCount vw st)) k = poll st (Suc k)"
  by (simp add: WorkersCount_eq poll_def)

lemma n_outputs_WorkersCount: "n_outputs (snd (WorkersCount vw st)) = Suc (n_outputs st)"
  by (simp add: WorkersCount_eq)

lemma loop_step:
  "i < tries \<Longrightarrow> IsExist_loop vw tries i prev st =
     (if fst (poll st 0) = int64 (Children vw + 1) then (Inr True, snd (WorkersCount vw st))
      else IsExist_loop vw tries (i + 1) (poll st 0) (snd (WorkersCount vw st)))"
  by (subst IsExist_loop.simps) (simp add: WorkersCount_eq)

lemma loop_stop:
  "\<not> i < tries \<Longrightarrow> IsExist_loop vw tries i prev st =
     (case snd prev of Some err \<Rightarrow> (Inl Fatal_Workers_Count, st) | None \<Rightarrow> (Inr False, st))"
  by (subst IsExist_loop.simps) simp

text \<open>The first poll that sees the expected count ends the loop.\<close>

lemma loop_true:
  "k < nat (tries - i) \<Longrightarrow> fst (poll st k) = int64 (Children vw + 1) \<Longrightarrow>
   \<forall>j<k. fst (poll st j) \<noteq> int64 (Children vw + 1) \<Longrightarrow>
   fst (IsExist_loop vw tries i prev st) = Inr True \<and>
   n_outputs (snd (IsExist_loop vw tries i prev st)) = n_outputs st + Suc k"
proof (induction k arbitrary: i prev st)
  case 0
  then have "i < tries" by simp
  with 0 show ?case by (simp add: loop_step n_outputs_WorkersCount)
next
  case (Suc k)
  then have lt: "i < tries" by simp
  from Suc.prems have ne: "fst (poll st 0) \<noteq> int64 (Children vw + 1)" by simp
  let ?st = "snd (WorkersCount vw st)"
  have "fst (IsExist_loop vw tries (i + 1) (poll st 0) ?st) = Inr True \<and>
        n_outputs (snd (IsExist_loop vw tries (i + 1) (poll st 0) ?st)) = n_outputs ?st + Suc k"
  proof (rule Suc.IH)
    show "k < nat (tries - (i + 1))" using Suc.prems(1) by simp
    show "fst (poll ?st k) = int64 (Children vw + 1)"
      using Suc.prems(2) by (simp add: poll_after_WorkersCount)
    show "\<forall>j<k. fst (poll ?st j) \<noteq> int64 (Children vw + 1)"
      using Suc.prems(3) by (simp add: poll_after_WorkersCount)
  qed
  with lt ne show ?case by (simp add: loop_step n_outputs_WorkersCount)
qed

text \<open>When no poll sees it, the loop runs out and the error of the latest poll decides.\<close>

lemma loop_false:
  "nat (tries - i) = n \<Longrightarrow> \<forall>j<n. fst (poll st j) \<noteq> int64 (Children vw + 1) \<Longrightarrow>
   fst (IsExist_loop vw tries i prev st) =
     (case snd (if n = 0 then prev else poll st (n - 1)) of
        Some err \<Rightarrow> Inl Fatal_Workers_Count | None \<Rightarrow> Inr False) \<and>
   n_outputs (snd (IsExist_loop vw tries i prev st)) = n_outputs st + n"
proof (induction n arbitrary: i prev st)
  case 0
  then have "\<not> i < tries" by simp
  then show ?case by (simp add: loop_stop split: option.splits)
next
  case (Suc n)
  then have lt: "i < tries" by simp
  from Suc.prems have ne: "fst (poll st 0) \<noteq> int64 (Children vw + 1)" by simp
  let ?st = "snd (WorkersCount vw st)"
  have ih: "fst (IsExist_loop vw tries (i + 1) (poll st 0) ?st) =
     (case snd (if n = 0 then poll st 0 else poll ?st (n - 1)) of
        Some err \<Rightarrow> Inl Fatal_Workers_Count | None \<Rightarrow> Inr False) \<and>
   n_outputs (snd (IsExist_loop vw tries (i + 1) (poll st 0) ?st)) = n_outputs ?st + n"
  proof (rule Suc.IH)
    show "nat (tries - (i + 1)) = n" using Suc.prems(1) by simp
    show "\<forall>j<n. fst (poll ?st j) \<noteq> int64 (Children vw + 1)"
      using Suc.prems(2) by (simp add: poll_after_WorkersCount)
  qed
  have "(if n = 0 then poll st 0 else poll ?st (n - 1)) = poll st n"
    by (cases n) (simp_all add: poll_after_WorkersCount)
  with ih lt ne show ?case by (simp add: loop_step n_outputs_WorkersCount)
qed

lemma loop_polls_le:
  "n_outputs (snd (IsExist_loop vw tries i prev st)) \<le> n_outputs st + nat (tries - i)"
proof (cases "\<exists>k<nat (tries - i). fst (poll st k) = int64 (Children vw + 1)")
  case True
  define k where "k = (LEAST k. k < nat (tries - i) \<and> fst (poll st k) = int64 (Children vw + 1))"
  from True have k: "k < nat (tries - i) \<and> fst (poll st k) = int64 (Children vw + 1)"
    unfolding k_def by (rule LeastI_ex)
  have least: "\<forall>j<k. fst (poll st j) \<noteq> int64 (Children vw + 1)"
  proof (intro allI impI notI)
    fix j assume "j < k" and "fst (poll st j) = int64 (Children vw + 1)"
    with k have "j < nat (tries - i) \<and> fst (poll st j) = int64 (Children vw + 1)" by simp
    then have "k \<le> j" unfolding k_def by (rule Least_le)
    with \<open>j < k\<close> show False by simp
  qed
  from loop_true [of k tries i st vw prev] k least show ?thesis by simp
next
  case False
  then have "\<forall>j<nat (tries - i). fst (poll st j) \<noteq> int64 (Children vw + 1)" by blast
  from loop_false [OF refl this] show ?thesis by simp
qed

text \<open>
  C4 as stated fails where it says that the health check returns false whenever no poll
  has seen the expected count: here the only poll fails, its count 0 is not the expected 3,
  and the health check ends in the fatal error.
\<close>

theorem IsExist_fatal_counterexample:
  "fst (poll broken_state 0) \<noteq> int64 (Children example_daemon + 1) \<and>
   fst (IsExist example_daemon 1 100 broken_state) = Inl Fatal_Workers_Count"
  by (simp add: IsExist_def loop_step loop_stop WorkersCount_eq poll_def broken_state_def
      example_state_def example_daemon_def count_eval)

text \<open>
  C4, as amended.  With \<open>tries \<ge> 1\<close> the health check queries the process table at most
  \<open>tries\<close> times.  It returns true at the first poll whose count equals the worker count
  plus one, and that poll is the last one made.  When none of the \<open>tries\<close> polls has that
  count, it makes all \<open>tries\<close> polls and then returns false if the query succeeded at the
  last of them, and ends in the fatal error if the query failed there.
\<close>

theorem IsExist_polls:
  assumes "1 \<le> tries"
  shows "n_outputs (snd (IsExist vw tries delay st)) \<le> n_outputs st + nat tries \<and>
    (\<forall>k<nat tries.
       fst (poll st k) = int64 (Children vw + 1) \<and>
       (\<forall>j<k. fst (poll st j) \<noteq> int64 (Children vw + 1)) \<longrightarrow>
       fst (IsExist vw tries delay st) = Inr True \<and>
       n_outputs (snd (IsExist vw tries delay st)) = n_outputs st + (k + 1)) \<and>
    ((\<forall>k<nat tries. fst (poll st k) \<noteq> int64 (Children vw + 1)) \<longrightarrow>
       fst (IsExist vw tries delay st) =
         (if snd (poll st (nat tries - 1)) = None then Inr False else Inl Fatal_Workers_Count) \<and>
       n_outputs (snd (IsExist vw tries delay st)) = n_outputs st + nat tries)"
proof (intro conjI allI impI)
  show "n_outputs (snd (IsExist vw tries delay st)) \<le> n_outputs st + nat tries"
    using loop_polls_le [of vw tries 0 "(0, None)" st] by (simp add: IsExist_def)
next
  fix k
  assume "k < nat tries"
    and "fst (poll st k) = int64 (Children vw + 1) \<and>
         (\<forall>j<k. fst (poll st j) \<noteq> int64 (Children vw + 1))"
  then have "fst (IsExist_loop vw tries 0 (0, None) st) = Inr True \<and>
      n_outputs (snd (IsExist_loop vw tries 0 (0, None) st)) = n_outputs st + Suc k"
    by (intro loop_true) simp_all
  then show "fst (IsExist vw tries delay st) = Inr True"
    and "n_outputs (snd (IsExist vw tries delay st)) = n_outputs st + (k + 1)"
    by (simp_all add: IsExist_def)
next
  assume a: "\<forall>k<nat tries. fst (poll st k) \<noteq> int64 (Children vw + 1)"
  from assms have pos: "nat tries \<noteq> 0" by simp
  from loop_false [of tries 0 "nat tries" st vw "(0, None)", OF _ a] pos
  show "fst (IsExist vw tries delay st) =
         (if snd (poll st (nat tries - 1)) = None then Inr False else Inl Fatal_Workers_Count)"
    and "n_outputs (snd (IsExist vw tries delay st)) = n_outputs st + nat tries"
    by (simp_all add: IsExist_def split: option.splits)
qed

lemma poll_example:
  "poll example_state 0 = (0, None)" "poll example_state 1 = (0, None)"
  "poll example_state (Suc 0) = (0, None)"
  "poll example_state 2 = (0, None)" "poll example_state 3 = (3, None)"
  by (simp_all add: poll_def example_state_def count_eval)

theorem IsExist_polls_witness:
  "(1::int) \<le> 5 \<and> fst (poll example_state 3) = int64 (Children example_daemon + 1) \<and>
   fst (poll example_state 0) \<noteq> int64 (Children example_daemon + 1) \<and>
   fst (poll example_state 1) \<noteq> int64 (Children example_daemon + 1) \<and>
   fst (poll example_state 2) \<noteq> int64 (Children example_daemon + 1) \<and>
   snd (poll example_state 2) = None \<and>
   fst (IsExist example_daemon 5 500 example_state) = Inr True \<and>
   n_outputs (snd (IsExist example_daemon 5 500 example_state)) = 4 \<and>
   fst (IsExist example_daemon 3 100 example_state) = Inr False \<and>
   n_outputs (snd (IsExist example_daemon 3 100 example_state)) = 3"
proof -
  have T: "int64 (Children example_daemon + 1) = 3"
    by (simp add: example_daemon_def int64_def)
  have n0: "n_outputs example_state = 0" by (simp add: example_state_def)
  have lt3: "\<And>j::nat. j < 3 \<longleftrightarrow> j = 0 \<or> j = 1 \<or> j = 2" by arith
  have none: "\<forall>j<3. fst (poll example_state j) \<noteq> int64 (Children example_daemon + 1)"
    by (simp add: lt3 T poll_example)
  have one5: "(1::int) \<le> 5" and one3: "(1::int) \<le> 3" by simp_all
  note at5 = IsExist_polls [OF one5, of example_daemon 500 example_state]
  note at3 = IsExist_polls [OF one3, of example_daemon 100 example_state]
  from at5 have "3 < nat 5 \<longrightarrow> fst (poll example_state 3) = int64 (Children example_daemon + 1) \<and>
       (\<forall>j<3. fst (poll example_state j) \<noteq> int64 (Children example_daemon + 1)) \<longrightarrow>
       fst (IsExist example_daemon 5 500 example_state) = Inr True \<and>
       n_outputs (snd (IsExist example_daemon 5 500 example_state)) = n_outputs example_state + (3 + 1)"
    by blast
  with none have a: "fst (IsExist example_daemon 5 500 example_state) = Inr True \<and>
        n_outputs (snd (IsExist example_daemon 5 500 example_state)) = 4"
    by (simp add: T poll_example n0)
  from at3 none have b: "fst (IsExist example_daemon 3 100 example_state) = Inr False \<and>
        n_outputs (snd (IsExist example_daemon 3 100 example_state)) = 3"
    by (simp add: T poll_example n0)
  from a b show ?thesis by (simp add: T poll_example)
qed

section \<open>A failing query\<close>

text \<open>
  C5 as stated fails.  A failing process-count query is not fatal at once, and a later poll
  can make up for it: the first query fails here, the second poll is made all the same
  and the health check returns true.
\<close>

theorem IsExist_recovers_counterexample:
  "fst (WorkersCount example_daemon flaky_state) = (0, Some ''exit status 1'') \<and>
   fst (IsExist example_daemon 2 100 flaky_state) = Inr True \<and>
   n_outputs (snd (IsExist example_daemon 2 100 flaky_state)) = 2"
  by (simp add: IsExist_def loop_step WorkersCount_eq poll_def flaky_state_def
      example_state_def example_daemon_def count_eval)

text \<open>
  C5, as amended.  With \<open>tries \<ge> 1\<close> the health check ends in the fatal error of the count
  query exactly when the query fails at the last of the \<open>tries\<close> polls and no poll has
  given the worker count plus one (a failed poll gives the count 0).  A failure at an earlier
  poll is not fatal: the next poll is made.
\<close>

theorem IsExist_fatal_iff:
  assumes "1 \<le> tries"
  shows "fst (IsExist vw tries delay st) = Inl Fatal_Workers_Count \<longleftrightarrow>
    (\<forall>k<nat tries. fst (poll st k) \<noteq> int64 (Children vw + 1)) \<and>
    snd (poll st (nat tries - 1)) \<noteq> None"
proof (cases "\<exists>k<nat tries. fst (poll st k) = int64 (Children vw + 1)")
  case True
  define k where "k = (LEAST k. k < nat tries \<and> fst (poll st k) = int64 (Children vw + 1))"
  from True have k: "k < nat tries \<and> fst (poll st k) = int64 (Children vw + 1)"
    unfolding k_def by (rule LeastI_ex)
  have least: "\<forall>j<k. fst (poll st j) \<noteq> int64 (Children vw + 1)"
  proof (intro allI impI notI)
    fix j assume "j < k" and "fst (poll st j) = int64 (Children vw + 1)"
    with k have "j < nat tries \<and> fst (poll st j) = int64 (Children vw + 1)" by simp
    then have "k \<le> j" unfolding k_def by (rule Least_le)
    with \<open>j < k\<close> show False by simp
  qed
  from loop_true [of k tries 0 st vw "(0, None)"] k least
  have "fst (IsExist vw tries delay st) = Inr True" by (simp add: IsExist_def)
  with True show ?thesis by auto
next
  case False
  then have none: "\<forall>j<nat tries. fst (poll st j) \<noteq> int64 (Children vw + 1)" by blast
  from assms have pos: "nat tries \<noteq> 0" by simp
  from loop_false [of tries 0 "nat tries" st vw "(0, None)", OF _ none] pos
  have "fst (IsExist vw tries delay st) =
      (case snd (poll st (nat tries - 1)) of
         Some err \<Rightarrow> Inl Fatal_Workers_Count | None \<Rightarrow> Inr False)"
    by (simp add: IsExist_def)
  with none show ?thesis by (auto split: option.splits)
qed

theorem IsExist_fatal_iff_witness:
  "(1::int) \<le> 2 \<and>
   fst (poll broken_state 0) \<noteq> int64 (Children example_daemon + 1) \<and>
   fst (poll broken_state 1) \<noteq> int64 (Children example_daemon + 1) \<and>
   snd (poll broken_state 1) \<noteq> None \<and>
   fst (IsExist example_daemon 2 100 broken_state) = Inl Fatal_Workers_Count \<and>
   snd (poll flaky_state 0) \<noteq> None \<and>
   fst (IsExist example_daemon 2 100 flaky_state) \<noteq> Inl Fatal_Workers_Count"
proof -
  have T: "int64 (Children example_daemon + 1) = 3"
    by (simp add: example_daemon_def int64_def)
  have lt2: "\<And>j::nat. j < 2 \<longleftrightarrow> j = 0 \<or> j = 1" by arith
  have b: "poll broken_state 0 = (0, Some ''exit status 127'')"
    "poll broken_state 1 = (0, Some ''exit status 127'')"
    "poll broken_state (Suc 0) = (0, Some ''exit status 127'')"
    by (simp_all add: poll_def broken_state_def example_state_def count_eval)
  have f: "poll flaky_state 0 = (0, Some ''exit status 1'')" "poll flaky_state 1 = (3, None)"
    "poll flaky_state (Suc 0) = (3, None)"
    by (simp_all add: poll_def flaky_state_def example_state_def count_eval)
  have "fst (IsExist example_daemon 2 100 broken_state) = Inl Fatal_Workers_Count"
    using IsExist_fatal_iff [of 2 example_daemon 100 broken_state]
    by (simp add: lt2 T b)
  moreover have "fst (IsExist example_daemon 2 100 flaky_state) \<noteq> Inl Fatal_Workers_Count"
    using IsExist_fatal_iff [of 2 example_daemon 100 flaky_state]
    by (simp add: lt2 T f)
  ultimately show ?thesis by (simp add: T b f)
qed

section \<open>What the health check and Stop leave untouched\<close>

lemma polled_simps [simp]:
  "daemons (polled vw n st) = daemons st" "models (polled vw n st) = models st"
  "chans (polled vw n st) = chans st" "fresh (polled vw n st) = fresh st"
  "watchers (polled vw n st) = watchers st" "wire (polled vw n st) = wire st"
  "n_starts (polled vw n st) = n_starts st" "starts (polled vw n st) = starts st"
  "n_stats (polled vw n st) = n_stats st" "stats (polled vw n st) = stats st"
  "n_dials (polled vw n st) = n_dials st" "dials (polled vw n st) = dials st"
  "outputs (polled vw n st) = outputs st" "n_outputs (polled vw n st) = n_outputs st + n"
  "filter snd (issued (polled vw n st)) = filter snd (issued st)"
  by (simp_all add: polled_def)

lemma started_simps [simp]:
  "daemons (started cmd st) = daemons st" "models (started cmd st) = models st"
  "chans (started cmd st) = chans st" "fresh (started cmd st) = fresh st"
  "watchers (started cmd st) = watchers st" "wire (started cmd st) = wire st"
  "n_stats (started cmd st) = n_stats st" "stats (started cmd st) = stats st"
  "n_dials (started cmd st) = n_dials st" "dials (started cmd st) = dials st"
  "outputs (started cmd st) = outputs st" "n_outputs (started cmd st) = n_outputs st"
  "filter snd (issued (started cmd st)) = filter snd (issued st) @ [(cmd, True)]"
  by (simp_all add: started_def)

lemma polled_0: "polled vw 0 st = st"
  by (simp add: polled_def)

lemma polled_polled: "polled vw n (polled vw k st) = polled vw (k + n) st"
  by (simp add: polled_def replicate_add)

lemma snd_WorkersCount: "snd (WorkersCount vw st) = polled vw 1 st"
  by (simp add: WorkersCount_eq polled_def)

lemma IsExist_loop_state:
  "nat (tries - i) = n \<Longrightarrow> \<exists>k. snd (IsExist_loop vw tries i prev st) = polled vw k st"
proof (induction n arbitrary: i prev st)
  case 0
  then have "\<not> i < tries" by simp
  then have "snd (IsExist_loop vw tries i prev st) = polled vw 0 st"
    by (simp add: loop_stop polled_0 split: option.splits)
  then show ?case ..
next
  case (Suc n)
  then have lt: "i < tries" by simp
  show ?case
  proof (cases "fst (poll st 0) = int64 (Children vw + 1)")
    case True
    with lt have "snd (IsExist_loop vw tries i prev st) = polled vw 1 st"
      by (simp add: loop_step snd_WorkersCount)
    then show ?thesis ..
  next
    case False
    from Suc.prems have "nat (tries - (i + 1)) = n" by simp
    from Suc.IH [OF this] obtain k where
      "snd (IsExist_loop vw tries (i + 1) (poll st 0) (polled vw 1 st)) = polled vw k (polled vw 1 st)"
      by blast
    with lt False have "snd (IsExist_loop vw tries i prev st) = polled vw (1 + k) st"
      by (simp add: loop_step snd_WorkersCount polled_polled)
    then show ?thesis ..
  qed
qed

lemma IsExist_state: "\<exists>k. snd (IsExist vw tries delay st) = polled vw k st"
  unfolding IsExist_def by (rule IsExist_loop_state [OF refl])

lemma runCommand_start:
  "runCommand cmd True st = (case starts st (n_starts st) of Some err \<Rightarrow> Inl err | None \<Rightarrow> Inr [], started cmd st)"
  by (simp add: runCommand_def started_def)

text \<open>Stop leaves the stores alone.\<close>

lemma Stop_state: "\<exists>k. snd (Stop vw st) = polled vw k (started (stop_command vw) st)"
proof -
  obtain k where k: "snd (IsExist vw 5 500 (started (stop_command vw) st)) = polled vw k (started (stop_command vw) st)"
    using IsExist_state by blast
  show ?thesis
  proof (cases "starts st (n_starts st)")
    case (Some e)
    then have "snd (Stop vw st) = polled vw 0 (started (stop_command vw) st)"
      by (simp add: Stop_def runCommand_start polled_0)
    then show ?thesis ..
  next
    case None
    then have "snd (Stop vw st) = polled vw k (started (stop_command vw) st)"
      using k by (cases "IsExist vw 5 500 (started (stop_command vw) st)")
        (auto simp add: Stop_def runCommand_start split: sum.splits bool.splits)
    then show ?thesis ..
  qed
qed

section \<open>Starting the daemon\<close>

text \<open>A queue that was filled holds one more connection for each round of the loop.\<close>

lemma fill_loop_success:
  "nat (sz - i) = n \<Longrightarrow> fst (fill_loop vw sz i st) = Inr () \<Longrightarrow> TCPQueue vw = Some c \<Longrightarrow>
   chans st c = Some ch \<Longrightarrow>
   \<exists>bs. length bs = n \<and>
     snd (fill_loop vw sz i st) =
       st\<lparr>chans := (chans st)(c \<mapsto> ch\<lparr>buf := buf ch @ bs\<rparr>), n_dials := n_dials st + n\<rparr>"
proof (induction n arbitrary: i st ch)
  case 0
  then have "\<not> i < sz" by simp
  then have "snd (fill_loop vw sz i st) = st" by (subst fill_loop.simps) simp
  moreover have "(chans st)(c \<mapsto> ch) = chans st" using 0(4) by (rule map_upd_triv)
  ultimately have "snd (fill_loop vw sz i st) =
      st\<lparr>chans := (chans st)(c \<mapsto> ch\<lparr>buf := buf ch @ []\<rparr>), n_dials := n_dials st + 0\<rparr>"
    by simp
  then have "length ([]::conn list) = 0 \<and> snd (fill_loop vw sz i st) =
      st\<lparr>chans := (chans st)(c \<mapsto> ch\<lparr>buf := buf ch @ []\<rparr>), n_dials := n_dials st + 0\<rparr>"
    by (intro conjI) (rule list.size(3), assumption)
  then show ?case by (rule exI)
next
  case (Suc n)
  then have lt: "i < sz" by simp
  let ?s1 = "st\<lparr>n_dials := n_dials st + 1\<rparr>"
  from Suc.prems(2) lt obtain x where x: "dials st (n_dials st) (Port vw) = Connected x"
    by (subst (asm) fill_loop.simps) (auto simp add: getTCPConn_def split: dialled.splits)
  then have g: "getTCPConn vw st = (Inr x, ?s1)" by (simp add: getTCPConn_def)
  from Suc.prems(2) lt g Suc.prems(3,4) have room: "length (buf ch) < cap ch"
    by (subst (asm) fill_loop.simps) (auto simp add: chan_send_def send_chan_def split: if_splits)
  let ?ch = "ch\<lparr>buf := buf ch @ [x]\<rparr>"
  let ?s2 = "?s1\<lparr>chans := (chans ?s1)(c \<mapsto> ?ch)\<rparr>"
  from room Suc.prems(3,4) have snd_: "chan_send (TCPQueue vw) x ?s1 = (Inr (), ?s2)"
    by (simp add: chan_send_def send_chan_def)
  from lt g snd_ have unf: "fill_loop vw sz i st = fill_loop vw sz (i + 1) ?s2"
    by (subst fill_loop.simps) simp
  have "\<exists>bs. length bs = n \<and>
     snd (fill_loop vw sz (i + 1) ?s2) =
       ?s2\<lparr>chans := (chans ?s2)(c \<mapsto> ?ch\<lparr>buf := buf ?ch @ bs\<rparr>), n_dials := n_dials ?s2 + n\<rparr>"
  proof (rule Suc.IH)
    show "nat (sz - (i + 1)) = n" using Suc.prems(1) by simp
    show "fst (fill_loop vw sz (i + 1) ?s2) = Inr ()" using Suc.prems(2) unf by simp
    show "TCPQueue vw = Some c" by fact
    show "chans ?s2 c = Some ?ch" by simp
  qed
  then obtain bs where bs: "length bs = n"
    "snd (fill_loop vw sz (i + 1) ?s2) =
       ?s2\<lparr>chans := (chans ?s2)(c \<mapsto> ?ch\<lparr>buf := buf ?ch @ bs\<rparr>), n_dials := n_dials ?s2 + n\<rparr>"
    by blast
  have "length (x # bs) = Suc n" using bs(1) by simp
  moreover have "snd (fill_loop vw sz i st) =
       st\<lparr>chans := (chans st)(c \<mapsto> ch\<lparr>buf := buf ch @ (x # bs)\<rparr>), n_dials := n_dials st + Suc n\<rparr>"
    using unf bs(2) by simp
  ultimately show ?case by blast
qed

text \<open>A successful \<^verbatim>\<open>Run\<close>, stage by stage.\<close>

lemma Run_success:
  assumes ok: "fst (Run a st) = Inr ()" and d: "daemons st a = Some vw"
  shows "\<exists>s4 m. model_of st vw = Some m \<and> 0 \<le> quot (Children vw) 2 \<and>
     daemons s4 = daemons st \<and> models s4 = models st \<and> chans s4 = chans st \<and>
     fresh s4 = fresh st \<and> watchers s4 = watchers st \<and>
     filter snd (issued s4) = filter snd (issued st)
        @ (if fst (IsExist vw 3 100 st) = Inr True then [(stop_command vw, True)] else [])
        @ [(start_command vw m, True)] \<and>
     Run a st = makeTCPConnQueue (vw\<lparr>TCPQueue := Some (fresh st)\<rparr>)
       (s4\<lparr>chans := (chans st)(fresh st \<mapsto> \<lparr>cap = nat (quot (Children vw) 2), buf = []\<rparr>),
           fresh := fresh st + 1,
           daemons := (daemons st)(a \<mapsto> vw\<lparr>TCPQueue := Some (fresh st)\<rparr>)\<rparr>)"
proof -
  obtain r1 s1 where e1: "IsExist vw 3 100 st = (r1, s1)" by (cases "IsExist vw 3 100 st")
  obtain k1 where s1: "s1 = polled vw k1 st" using IsExist_state [of vw 3 100 st] e1 by auto
  from ok d e1 obtain running where r1: "r1 = Inr running"
    by (cases r1) (simp_all add: Run_def)
  obtain r2 s2 where e2: "(if running then Stop vw s1 else (Inr (), s1)) = (r2, s2)"
    by (cases "if running then Stop vw s1 else (Inr (), s1)")
  have f2: "daemons s2 = daemons st \<and> models s2 = models st \<and> chans s2 = chans st \<and>
     fresh s2 = fresh st \<and> watchers s2 = watchers st \<and>
     filter snd (issued s2) = filter snd (issued st)
        @ (if running then [(stop_command vw, True)] else [])"
  proof (cases running)
    case True
    obtain k where "snd (Stop vw s1) = polled vw k (started (stop_command vw) s1)"
      using Stop_state by blast
    with True e2 have "s2 = polled vw k (started (stop_command vw) s1)" by simp
    with True s1 show ?thesis by simp
  next
    case False
    with e2 s1 show ?thesis by auto
  qed
  from ok d e1 r1 e2 have r2: "r2 = Inr ()"
    by (cases r2) (simp_all add: Run_def)
  from ok d e1 r1 e2 r2 obtain m where m2: "model_of s2 vw = Some m"
    by (cases "model_of s2 vw") (simp_all add: Run_def)
  with f2 have m: "model_of st vw = Some m"
    by (auto simp add: model_of_def split: option.splits)
  let ?s3 = "started (start_command vw m) s2"
  from ok d e1 r1 e2 r2 m2 have st3: "starts s2 (n_starts s2) = None"
    by (cases "starts s2 (n_starts s2)") (simp_all add: Run_def runCommand_start)
  then have e3: "runCommand (start_command vw m) True s2 = (Inr [], ?s3)"
    by (simp add: runCommand_start)
  obtain r4 s4 where e4: "IsExist vw 5 500 ?s3 = (r4, s4)" by (cases "IsExist vw 5 500 ?s3")
  obtain k4 where s4: "s4 = polled vw k4 ?s3" using IsExist_state [of vw 5 500 ?s3] e4 by auto
  from ok d e1 r1 e2 r2 m2 e3 e4 have r4: "r4 = Inr True"
    by (cases r4) (auto simp add: Run_def split: bool.splits)
  from ok d e1 r1 e2 r2 m2 e3 e4 r4 have q: "0 \<le> quot (Children vw) 2"
    by (cases "quot (Children vw) 2 < 0") (simp_all add: Run_def)
  from s4 f2 have f4: "daemons s4 = daemons st \<and> models s4 = models st \<and> chans s4 = chans st \<and>
     fresh s4 = fresh st \<and> watchers s4 = watchers st \<and>
     filter snd (issued s4) = filter snd (issued st)
        @ (if running then [(stop_command vw, True)] else []) @ [(start_command vw m, True)]"
    by simp
  have run: "(fst (IsExist vw 3 100 st) = Inr True) = running" using e1 r1 by simp
  from d e1 r1 e2 r2 m2 e3 e4 r4 q f4
  have "Run a st = makeTCPConnQueue (vw\<lparr>TCPQueue := Some (fresh st)\<rparr>)
       (s4\<lparr>chans := (chans st)(fresh st \<mapsto> \<lparr>cap = nat (quot (Children vw) 2), buf = []\<rparr>),
           fresh := fresh st + 1,
           daemons := (daemons st)(a \<mapsto> vw\<lparr>TCPQueue := Some (fresh st)\<rparr>)\<rparr>)"
    by (simp add: Run_def Let_def)
  with m q f4 run show ?thesis by blast
qed

text \<open>What a successful Run leaves behind.\<close>

lemma Run_result:
  assumes ok: "fst (Run a st) = Inr ()" and d: "daemons st a = Some vw"
  shows "\<exists>m bs. model_of st vw = Some m \<and> 0 \<le> quot (Children vw) 2 \<and>
     length bs = nat (quot (Children vw) 2) \<and>
     daemons (snd (Run a st)) = (daemons st)(a \<mapsto> vw\<lparr>TCPQueue := Some (fresh st)\<rparr>) \<and>
     models (snd (Run a st)) = models st \<and>
     chans (snd (Run a st)) =
       (chans st)(fresh st \<mapsto> \<lparr>cap = nat (quot (Children vw) 2), buf = bs\<rparr>) \<and>
     fresh (snd (Run a st)) = fresh st + 1 \<and>
     watchers (snd (Run a st)) = watchers st \<and>
     filter snd (issued (snd (Run a st))) = filter snd (issued st)
        @ (if fst (IsExist vw 3 100 st) = Inr True then [(stop_command vw, True)] else [])
        @ [(start_command vw m, True)]"
proof -
  from Run_success [OF ok d] obtain s4 m where
    m: "model_of st vw = Some m" and q: "0 \<le> quot (Children vw) 2" and
    f: "daemons s4 = daemons st" "models s4 = models st" "chans s4 = chans st"
       "fresh s4 = fresh st" "watchers s4 = watchers st" and
    iss: "filter snd (issued s4) = filter snd (issued st)
        @ (if fst (IsExist vw 3 100 st) = Inr True then [(stop_command vw, True)] else [])
        @ [(start_command vw m, True)]" and
    run: "Run a st = makeTCPConnQueue (vw\<lparr>TCPQueue := Some (fresh st)\<rparr>)
       (s4\<lparr>chans := (chans st)(fresh st \<mapsto> \<lparr>cap = nat (quot (Children vw) 2), buf = []\<rparr>),
           fresh := fresh st + 1,
           daemons := (daemons st)(a \<mapsto> vw\<lparr>TCPQueue := Some (fresh st)\<rparr>)\<rparr>)"
    by blast
  let ?vw = "vw\<lparr>TCPQueue := Some (fresh st)\<rparr>"
  let ?ch = "\<lparr>cap = nat (quot (Children vw) 2), buf = []\<rparr>"
  let ?s5 = "s4\<lparr>chans := (chans st)(fresh st \<mapsto> ?ch), fresh := fresh st + 1,
           daemons := (daemons st)(a \<mapsto> ?vw)\<rparr>"
  have "\<exists>bs. length bs = nat (quot (Children vw) 2) \<and>
     snd (fill_loop ?vw (quot (Children ?vw) 2) 0 ?s5) =
       ?s5\<lparr>chans := (chans ?s5)(fresh st \<mapsto> ?ch\<lparr>buf := buf ?ch @ bs\<rparr>),
           n_dials := n_dials ?s5 + nat (quot (Children vw) 2)\<rparr>"
  proof (rule fill_loop_success)
    show "nat (quot (Children ?vw) 2 - 0) = nat (quot (Children vw) 2)" by simp
    show "fst (fill_loop ?vw (quot (Children ?vw) 2) 0 ?s5) = Inr ()"
      using ok run by (simp add: makeTCPConnQueue_def)
    show "TCPQueue ?vw = Some (fresh st)" by simp
    show "chans ?s5 (fresh st) = Some ?ch" by simp
  qed
  then obtain bs where bs: "length bs = nat (quot (Children vw) 2)"
    "snd (Run a st) =
       ?s5\<lparr>chans := (chans ?s5)(fresh st \<mapsto> ?ch\<lparr>buf := buf ?ch @ bs\<rparr>),
           n_dials := n_dials ?s5 + nat (quot (Children vw) 2)\<rparr>"
    using run by (auto simp add: makeTCPConnQueue_def)
  from bs(2) f iss have
     "daemons (snd (Run a st)) = (daemons st)(a \<mapsto> ?vw)"
     "models (snd (Run a st)) = models st"
     "chans (snd (Run a st)) =
       (chans st)(fresh st \<mapsto> \<lparr>cap = nat (quot (Children vw) 2), buf = bs\<rparr>)"
     "fresh (snd (Run a st)) = fresh st + 1"
     "watchers (snd (Run a st)) = watchers st"
     "filter snd (issued (snd (Run a st))) = filter snd (issued st)
        @ (if fst (IsExist vw 3 100 st) = Inr True then [(stop_command vw, True)] else [])
        @ [(start_command vw m, True)]"
    by simp_all
  with m q bs(1) show ?thesis by blast
qed

section \<open>The command line\<close>

text \<open>
  The command line \<^verbatim>\<open>Run\<close> builds does not depend on the binary path of the handle.
\<close>

lemma start_command_BinPath: "start_command (vw\<lparr>BinPath := b\<rparr>) m = start_command vw m"
  by (simp add: start_command_def)

text \<open>
  The commands a successful \<^verbatim>\<open>Run\<close> starts: the \<^verbatim>\<open>pkill\<close> when the daemon was found
  running, and then the launch.
\<close>

lemma Run_starts:
  assumes "fst (Run a st) = Inr ()" and "daemons st a = Some vw" and "model_of st vw = Some m"
  shows "filter snd (issued (snd (Run a st))) =
     filter snd (issued st)
       @ (if fst (IsExist vw 3 100 st) = Inr True then [(stop_command vw, True)] else [])
       @ [(''vw --daemon --threads --quiet --port '' @ Sprintf_d (Port vw)
             @ '' --num_children '' @ Sprintf_d (Children vw)
             @ (if Path m = [] then [] else '' -i  '' @ Path m)
             @ (if Test vw then '' -t'' else []), True)]"
proof -
  from Run_result [OF assms(1,2)] assms(3)
  have "filter snd (issued (snd (Run a st))) = filter snd (issued st)
        @ (if fst (IsExist vw 3 100 st) = Inr True then [(stop_command vw, True)] else [])
        @ [(start_command vw m, True)]"
    by auto
  moreover have "start_command vw m =
      ''vw --daemon --threads --quiet --port '' @ Sprintf_d (Port vw)
             @ '' --num_children '' @ Sprintf_d (Children vw)
             @ (if Path m = [] then [] else '' -i  '' @ Path m)
             @ (if Test vw then '' -t'' else [])"
    by (simp add: start_command_def)
  ultimately show ?thesis by simp
qed

section \<open>The line terminator\<close>

text \<open>
  C8.  The step that makes a request end in a newline does not append one to the empty
  request, which does not end in a newline: it reads the byte before the first and panics.
\<close>

theorem line_terminated_empty: "line_terminated [] = Inl Panic_Index"
  by (simp add: line_terminated_def)

text \<open>On every other request the step appends at most one newline and is idempotent.\<close>

lemma line_terminated_idem:
  assumes "pData \<noteq> []"
  shows "\<exists>p. line_terminated pData = Inr p \<and> line_terminated p = Inr p \<and>
     (last pData = endOfLine \<longrightarrow> p = pData) \<and>
     (last pData \<noteq> endOfLine \<longrightarrow> p = pData @ [endOfLine])"
  using assms by (simp add: line_terminated_def)

text \<open>
  \<^verbatim>\<open>Predict\<close> on a handle whose queue is empty waits and makes no connection; with a
  connection in the queue and an answer on the line, it writes the terminated request and
  puts the connection back at the end of the queue.
\<close>

lemma Predict_waits:
  assumes "pData \<noteq> []" and "daemons st a = Some vw" and "TCPQueue vw = Some c"
    and "chans st c = Some q" and "buf q = []"
  shows "Predict parse a pData st = (Inl Blocked, st)"
  using assms by (simp add: Predict_def line_terminated_def chan_recv_def recv_chan_def)

lemma Predict_returns:
  assumes "line_terminated pData = Inr payload" and "daemons st a = Some vw"
    and "TCPQueue vw = Some c" and "chans st c = Some q" and "buf q = x # xs"
    and "length (buf q) \<le> cap q" and "replies st (n_replies st) = Line res"
  shows "Predict parse a pData st =
    (Inr (parse res),
     st\<lparr>chans := (chans st)(c \<mapsto> q\<lparr>buf := xs @ [x]\<rparr>),
        n_replies := n_replies st + 1, wire := wire st @ [(x, payload)]\<rparr>)"
  using assms
  by (simp add: Predict_def chan_recv_def recv_chan_def exchange_def chan_send_def send_chan_def)

text \<open>
  C10.  \<^verbatim>\<open>Predict\<close> on the empty request panics on the index, with the state as it was:
  no connection has been taken from the queue and nothing was written.  The empty request
  is the only one on which it panics so.
\<close>

theorem Predict_empty:
  "Predict parse a [] st = (Inl Panic_Index, st) \<and>
   ((fst (Predict parse a pData st) = Inl Panic_Index) = (pData = []))"
proof -
  have "fst (Predict parse a pData st) \<noteq> Inl Panic_Index" if "pData \<noteq> []"
    using that
    by (auto simp add: Predict_def line_terminated_def chan_recv_def chan_send_def exchange_def
        split: option.splits sum.splits prod.splits reply.splits if_splits)
  moreover have "Predict parse a [] st = (Inl Panic_Index, st)"
    by (simp add: Predict_def line_terminated_def)
  ultimately show ?thesis by auto
qed

section \<open>The pool bound\<close>

text \<open>\<^verbatim>\<open>Predict\<close> is its two parts, one after the other.\<close>

lemma Predict_parts:
  "Predict parse a pData st =
     (case Predict_checkout a pData st of
        (Inl f, s1) \<Rightarrow> (Inl f, s1)
      | (Inr h, s1) \<Rightarrow> Predict_checkin parse a (fst h) (snd h) s1)"
  by (auto simp add: Predict_def Predict_checkout_def Predict_checkin_def chan_recv_def
      exchange_def split: sum.splits option.splits prod.splits reply.splits)

text \<open>
  The handle at \<open>a\<close> has the queue \<open>c\<close>, and the connections in the queue and the \<open>k\<close> in
  flight are \<open>n\<close> together.
\<close>

lemma checkout_keeps:
  assumes "Predict_checkout a pData st = (Inr h, s1)"
    and "daemons st a = Some vw" and "TCPQueue vw = Some c" and "chans st c = Some q"
  shows "daemons s1 = daemons st \<and> n_dials s1 = n_dials st \<and>
     (\<exists>q'. chans s1 c = Some q' \<and> cap q' = cap q \<and> Suc (length (buf q')) = length (buf q))"
  using assms
  by (auto simp add: Predict_checkout_def chan_recv_def recv_chan_def
      split: sum.splits option.splits list.splits)

lemma checkin_keeps:
  assumes "Predict_checkin parse a x p st = (Inr r, s1)"
    and "daemons st a = Some vw" and "TCPQueue vw = Some c" and "chans st c = Some q"
  shows "daemons s1 = daemons st \<and> n_dials s1 = n_dials st \<and>
     (\<exists>q'. chans s1 c = Some q' \<and> cap q' = cap q \<and> length (buf q') = Suc (length (buf q)))"
  using assms
  by (auto simp add: Predict_checkin_def exchange_def chan_send_def send_chan_def
      split: sum.splits option.splits reply.splits if_splits)

lemma calls_step_keeps:
  assumes "calls_step parse a x (st, fl) = Moves (s1, fl1)"
    and "daemons st a = Some vw" and "TCPQueue vw = Some c" and "chans st c = Some q"
    and "length (buf q) + length fl = n"
  shows "daemons s1 = daemons st \<and> n_dials s1 = n_dials st \<and>
     (\<exists>q'. chans s1 c = Some q' \<and> cap q' = cap q \<and> length (buf q') + length fl1 = n)"
proof (cases x)
  case (Call pData)
  with assms(1) obtain h where h: "Predict_checkout a pData st = (Inr h, s1)"
    and fl1: "fl1 = fl @ [h]"
    by (auto split: prod.splits sum.splits if_splits)
  from checkout_keeps [OF h assms(2-4)] fl1 assms(5) show ?thesis by auto
next
  case (Return i)
  with assms(1) have i: "i < length fl" by (auto split: if_splits)
  with assms(1) Return obtain r where
    r: "Predict_checkin parse a (fst (fl ! i)) (snd (fl ! i)) st = (Inr r, s1)"
    and fl1: "fl1 = take i fl @ drop (Suc i) fl"
    by (auto split: prod.splits sum.splits if_splits)
  from i fl1 have "Suc (length fl1) = length fl" by auto
  with checkin_keeps [OF r assms(2-4)] assms(5) show ?thesis by auto
qed

lemma calls_run_keeps:
  assumes "daemons st a = Some vw" and "TCPQueue vw = Some c" and "chans st c = Some q"
    and "length (buf q) + length fl = n"
    and "calls_run parse a ops (st, fl) = (s, fl')"
  shows "daemons s = daemons st \<and> n_dials s = n_dials st \<and>
     (\<exists>q'. chans s c = Some q' \<and> cap q' = cap q \<and> length (buf q') + length fl' = n)"
  using assms
proof (induction ops arbitrary: st fl q)
  case Nil
  then show ?case by simp
next
  case (Cons x ops)
  show ?case
  proof (cases "calls_step parse a x (st, fl)")
    case Stays
    with Cons.prems(5) have "calls_run parse a ops (st, fl) = (s, fl')" by simp
    from Cons.IH [OF Cons.prems(1-4) this] show ?thesis .
  next
    case Ends
    with Cons.prems show ?thesis by simp
  next
    case (Moves cfg)
    obtain s1 fl1 where cfg: "cfg = (s1, fl1)" by (cases cfg)
    from calls_step_keeps [OF Moves [unfolded cfg] Cons.prems(1-4)] obtain q1 where
      k: "daemons s1 = daemons st" "n_dials s1 = n_dials st" "chans s1 c = Some q1"
        "cap q1 = cap q" "length (buf q1) + length fl1 = n"
      by blast
    from Moves cfg Cons.prems(5) have run: "calls_run parse a ops (s1, fl1) = (s, fl')" by simp
    from k(1) Cons.prems(1) have d1: "daemons s1 a = Some vw" by simp
    from Cons.IH [OF d1 Cons.prems(2) k(3) k(5) run] k show ?thesis by auto
  qed
qed

text \<open>
  C6.  When \<^verbatim>\<open>Run\<close> succeeds on a handle with \<open>N\<close> workers, the handle has a queue
  of capacity \<open>N / 2\<close> (Go's division) holding \<open>N / 2\<close> connections.  However the calls
  of \<^verbatim>\<open>Predict\<close> on the handle are interleaved after that, the connections in the queue and
  those checked out by calls in flight are \<open>N / 2\<close> together, so at most \<open>N / 2\<close> are
  checked out at a time; no call dials; and when all are checked out, \<^verbatim>\<open>Predict\<close> on a
  request waits at its checkout and leaves the state as it is.  The calls interleaved are
  those of \<^verbatim>\<open>Predict\<close>: it is its checkout part followed by its checkin part.
\<close>

theorem pool_bound:
  assumes "fst (Run a st) = Inr ()" and "daemons st a = Some vw"
  shows "\<exists>c q. map_option TCPQueue (daemons (snd (Run a st)) a) = Some (Some c) \<and>
     chans (snd (Run a st)) c = Some q \<and>
     int (cap q) = quot (Children vw) 2 \<and> int (length (buf q)) = quot (Children vw) 2 \<and>
     (\<forall>ops s inflight. calls_run parse a ops (snd (Run a st), []) = (s, inflight) \<longrightarrow>
        int (length inflight) \<le> quot (Children vw) 2 \<and>
        n_dials s = n_dials (snd (Run a st)) \<and>
        (\<exists>q'. chans s c = Some q' \<and>
           int (length (buf q') + length inflight) = quot (Children vw) 2) \<and>
        (int (length inflight) = quot (Children vw) 2 \<longrightarrow>
           (\<forall>pData. pData \<noteq> [] \<longrightarrow> Predict parse a pData s = (Inl Blocked, s)))) \<and>
     (\<forall>s pData. Predict parse a pData s =
        (case Predict_checkout a pData s of
           (Inl f, s1) \<Rightarrow> (Inl f, s1)
         | (Inr h, s1) \<Rightarrow> Predict_checkin parse a (fst h) (snd h) s1))"
proof -
  from Run_result [OF assms] obtain m bs where
    q: "0 \<le> quot (Children vw) 2" and bs: "length bs = nat (quot (Children vw) 2)" and
    dm: "daemons (snd (Run a st)) = (daemons st)(a \<mapsto> vw\<lparr>TCPQueue := Some (fresh st)\<rparr>)" and
    ch: "chans (snd (Run a st)) =
       (chans st)(fresh st \<mapsto> \<lparr>cap = nat (quot (Children vw) 2), buf = bs\<rparr>)"
    by blast
  let ?st = "snd (Run a st)"
  let ?vw = "vw\<lparr>TCPQueue := Some (fresh st)\<rparr>"
  let ?q = "\<lparr>cap = nat (quot (Children vw) 2), buf = bs\<rparr>"
  have d: "daemons ?st a = Some ?vw" using dm by simp
  have t: "TCPQueue ?vw = Some (fresh st)" by simp
  have c: "chans ?st (fresh st) = Some ?q" using ch by simp
  have n: "length (buf ?q) + length ([] :: (conn \<times> byte list) list) = nat (quot (Children vw) 2)"
    using bs by simp
  have "int (length fl) \<le> quot (Children vw) 2 \<and>
        n_dials s = n_dials ?st \<and>
        (\<exists>q'. chans s (fresh st) = Some q' \<and>
           int (length (buf q') + length fl) = quot (Children vw) 2) \<and>
        (int (length fl) = quot (Children vw) 2 \<longrightarrow>
           (\<forall>pData. pData \<noteq> [] \<longrightarrow> Predict parse a pData s = (Inl Blocked, s)))"
    if run: "calls_run parse a ops (?st, []) = (s, fl)" for ops s fl
  proof -
    from calls_run_keeps [OF d t c n run] obtain q' where
      k: "daemons s = daemons ?st" "n_dials s = n_dials ?st" "chans s (fresh st) = Some q'"
        "length (buf q') + length fl = nat (quot (Children vw) 2)"
      by blast
    from k(4) q have sum: "int (length (buf q') + length fl) = quot (Children vw) 2" by simp
    then have le: "int (length fl) \<le> quot (Children vw) 2" by simp
    have "Predict parse a pData s = (Inl Blocked, s)"
      if full: "int (length fl) = quot (Children vw) 2" and ne: "pData \<noteq> []" for pData
    proof -
      from sum full have "buf q' = []" by simp
      moreover from k(1) d have "daemons s a = Some ?vw" by simp
      ultimately show ?thesis using Predict_waits [OF ne _ t k(3)] by simp
    qed
    with le k(2,3) sum show ?thesis by blast
  qed
  moreover have "map_option TCPQueue (daemons ?st a) = Some (Some (fresh st))"
    using dm by simp
  moreover have "int (cap ?q) = quot (Children vw) 2" "int (length (buf ?q)) = quot (Children vw) 2"
    using q bs by simp_all
  moreover note c Predict_parts
  ultimately show ?thesis by blast
qed

section \<open>The example, run\<close>

lemmas run_eval =
  IsExist_def IsExist_loop.simps WorkersCount_def runCommand_def count_eval
  Run_def Stop_def model_of_def makeTCPConnQueue_def fill_loop.simps getTCPConn_def
  chan_send_def send_chan_def quot_def

lemmas example_defs = example_state_def example_daemon_def example_model_def

lemmas command_eval =
  start_command_def stop_command_def count_command_def spec_command_def Sprintf_d_def
  digits.simps digit_char_def

lemma Sprintf_d_examples: "Sprintf_d 26542 = ''26542''" "Sprintf_d 2 = ''2''" "Sprintf_d (- 7) = ''-7''"
  by (simp_all add: command_eval)

lemma Run_example:
  "fst (Run 0 example_state) = Inr ()"
  "daemons (snd (Run 0 example_state)) 0 = Some (example_daemon\<lparr>TCPQueue := Some 2\<rparr>)"
  "chans (snd (Run 0 example_state)) 2 = Some \<lparr>cap = 1, buf = [0]\<rparr>"
  by (simp_all add: run_eval example_defs)

lemma example_handle:
  "daemons example_state 0 = Some example_daemon"
  "model_of example_state example_daemon = Some example_model"
  "fst (IsExist example_daemon 3 100 example_state) = Inr False"
  by (simp_all add: run_eval example_defs)

lemmas calls_eval =
  Predict_checkout_def Predict_checkin_def line_terminated_def endOfLine_def chan_recv_def
  recv_chan_def exchange_def

lemma calls_example:
  "length (snd (calls_run id 0 [Call ''1 |f a:1'', Call ''1 |f b:1'']
      (snd (Run 0 example_state), []))) = 1"
  "length (snd (calls_run id 0 [Call ''1 |f a:1'', Return 0, Call ''1 |f b:1'']
      (snd (Run 0 example_state), []))) = 1"
  "wire (fst (calls_run id 0 [Call ''1 |f a:1'', Return 0, Call ''1 |f b:1'']
      (snd (Run 0 example_state), []))) = [(0, ''1 |f a:1'' @ [CHR 0x0A])]"
  by (simp_all add: run_eval example_defs calls_eval)

theorem pool_bound_witness:
  "fst (Run 0 example_state) = Inr () \<and> daemons example_state 0 = Some example_daemon \<and>
   quot (Children example_daemon) 2 = 1 \<and>
   map_option TCPQueue (daemons (snd (Run 0 example_state)) 0) = Some (Some 2) \<and>
   chans (snd (Run 0 example_state)) 2 = Some \<lparr>cap = 1, buf = [0]\<rparr> \<and>
   length (snd (calls_run id 0 [Call ''1 |f a:1'', Call ''1 |f b:1'']
      (snd (Run 0 example_state), []))) = 1 \<and>
   n_dials (fst (calls_run id 0 [Call ''1 |f a:1'', Call ''1 |f b:1'']
      (snd (Run 0 example_state), []))) = n_dials (snd (Run 0 example_state)) \<and>
   ''1 |f c:1'' \<noteq> [] \<and>
   fst (Predict id 0 ''1 |f c:1'' (fst (calls_run id 0 [Call ''1 |f a:1'', Call ''1 |f b:1'']
      (snd (Run 0 example_state), [])))) = Inl Blocked"
proof -
  let ?cfg = "calls_run id 0 [Call ''1 |f a:1'', Call ''1 |f b:1''] (snd (Run 0 example_state), [])"
  have q: "quot (Children example_daemon) 2 = 1" by (simp add: quot_def example_daemon_def)
  have run: "calls_run id 0 [Call ''1 |f a:1'', Call ''1 |f b:1''] (snd (Run 0 example_state), [])
      = (fst ?cfg, snd ?cfg)"
    by simp
  from pool_bound [OF Run_example(1) example_handle(1), where parse = id] obtain c q where
    bound: "\<forall>ops s inflight. calls_run id 0 ops (snd (Run 0 example_state), []) = (s, inflight) \<longrightarrow>
        int (length inflight) \<le> quot (Children example_daemon) 2 \<and>
        n_dials s = n_dials (snd (Run 0 example_state)) \<and>
        (\<exists>q'. chans s c = Some q' \<and>
           int (length (buf q') + length inflight) = quot (Children example_daemon) 2) \<and>
        (int (length inflight) = quot (Children example_daemon) 2 \<longrightarrow>
           (\<forall>pData. pData \<noteq> [] \<longrightarrow> Predict id 0 pData s = (Inl Blocked, s)))"
    by blast
  from bound [rule_format, OF run] have
    nd: "n_dials (fst ?cfg) = n_dials (snd (Run 0 example_state))" and
    full: "int (length (snd ?cfg)) = quot (Children example_daemon) 2 \<longrightarrow>
           (\<forall>pData. pData \<noteq> [] \<longrightarrow> Predict id 0 pData (fst ?cfg) = (Inl Blocked, fst ?cfg))"
    by blast+
  from full q calls_example(1)
  have "Predict id 0 ''1 |f c:1'' (fst ?cfg) = (Inl Blocked, fst ?cfg)" by simp
  then have "fst (Predict id 0 ''1 |f c:1'' (fst ?cfg)) = Inl Blocked" by simp
  with nd q calls_example(1) show ?thesis
    by (simp add: Run_example example_handle)
qed

text \<open>
  C7.  The process-start command should be the binary path of the handle followed by the
  options.  The handle here has the binary path \<^verbatim>\<open>/opt/vw/bin/vw\<close>, which \<^verbatim>\<open>NewDaemon\<close>
  stores and \<^verbatim>\<open>RecreateDaemon\<close> hands on; the only command \<^verbatim>\<open>Run\<close> starts begins with
  the literal \<^verbatim>\<open>vw\<close> instead (and has two spaces after \<^verbatim>\<open>-i\<close>), so the command of the
  specification is never issued.
\<close>

theorem Run_ignores_BinPath:
  "fst (Run 0 example_state) = Inr () \<and>
   filter snd (issued (snd (Run 0 example_state))) =
     [(''vw --daemon --threads --quiet --port 26542 --num_children 2 -i  /srv/model.vw -t'', True)] \<and>
   spec_command example_daemon example_model =
     ''/opt/vw/bin/vw --daemon --threads --quiet --port 26542 --num_children 2 -i /srv/model.vw -t'' \<and>
   (spec_command example_daemon example_model, True) \<notin> set (issued (snd (Run 0 example_state)))"
  by (simp add: run_eval example_defs command_eval)

text \<open>The launch comes before the health check: a run that fails there has issued it too.\<close>

lemma Run_failed_example:
  "fst (Run 0 idle_state) = Inl Fatal_Start_Failed \<and>
   filter snd (issued (snd (Run 0 idle_state))) =
     [(''vw --daemon --threads --quiet --port 26542 --num_children 2 -i  /srv/model.vw -t'', True)]"
  by (simp add: run_eval example_defs idle_state_def command_eval)

lemma Run_starts_example:
  "fst (Run 0 example_state) = Inr () \<and> daemons example_state 0 = Some example_daemon \<and>
   model_of example_state example_daemon = Some example_model \<and>
   filter snd (issued (snd (Run 0 example_state))) =
     filter snd (issued example_state) @
     [(''vw --daemon --threads --quiet --port 26542 --num_children 2 -i  /srv/model.vw -t'', True)]"
proof -
  have "Path example_model = ''/srv/model.vw''" "Test example_daemon" "Port example_daemon = 26542"
    "Children example_daemon = 2"
    by (simp_all add: example_defs)
  with Run_starts [OF Run_example(1) example_handle(1,2)] show ?thesis
    by (simp add: Run_example example_handle Sprintf_d_examples)
qed

section \<open>A successful recreate\<close>

lemma deferred_ok:
  assumes "fst (deferred g r) = Inr ()"
  shows "fst r = Inr () \<and> deferred g r = g (snd r)"
proof (cases r)
  case (Pair x s)
  with assms show ?thesis
    by (cases x) (auto simp add: deferred_def split: if_splits prod.splits sum.splits)
qed

lemma Stop_at_state:
  "daemons st a = Some vw \<Longrightarrow>
   \<exists>k. snd (Stop_at a st) = polled vw k (started (stop_command vw) st)"
  using Stop_state [of vw st] by (simp add: Stop_at_def)

lemma NewDaemon_success:
  assumes "fst (NewDaemon binPath port children modelPath test quite updatable st) = Inr a"
  shows "\<exists>info. stats st (n_stats st) modelPath = Inr info \<and> a = fresh st + 1 \<and>
    snd (NewDaemon binPath port children modelPath test quite updatable st) =
      st\<lparr>n_stats := n_stats st + 1,
         models := (models st)(fresh st \<mapsto>
            \<lparr>Path = modelPath, ModTime = info, Updatable = updatable\<rparr>),
         daemons := (daemons st)(fresh st + 1 \<mapsto>
            \<lparr>BinPath = binPath, Port = port, Children = children, Model = Some (fresh st),
             Test = test, Quite = quite, TCPQueue = None\<rparr>),
         fresh := fresh st + 2,
         watchers := watchers st @ (if updatable then [fresh st + 1] else [])\<rparr>"
  using assms
  by (cases "stats st (n_stats st) modelPath")
     (auto simp add: NewDaemon_def os_Stat_def Let_def)

lemma Recreate_body_result:
  assumes ok: "fst (Recreate_body d s1) = Inr ()" and old: "daemons s1 d = Some old"
    and m: "model_of s1 old = Some m"
  shows "\<exists>info bs. stats s1 (n_stats s1) (Path m) = Inr info \<and>
     length bs = nat (quot (Children old) 2) \<and>
     daemons (snd (Recreate_body d s1)) =
       (daemons s1)
         (fresh s1 + 1 \<mapsto>
            \<lparr>BinPath = BinPath old, Port = other_port old, Children = Children old,
             Model = Some (fresh s1), Test = Test old, Quite = Quite old,
             TCPQueue = Some (fresh s1 + 2)\<rparr>,
          d \<mapsto>
            \<lparr>BinPath = BinPath old, Port = other_port old, Children = Children old,
             Model = Some (fresh s1), Test = Test old, Quite = Quite old,
             TCPQueue = Some (fresh s1 + 2)\<rparr>) \<and>
     models (snd (Recreate_body d s1)) =
       (models s1)(fresh s1 \<mapsto> \<lparr>Path = Path m, ModTime = info, Updatable = Updatable m\<rparr>) \<and>
     chans (snd (Recreate_body d s1)) =
       (chans s1)(fresh s1 + 2 \<mapsto> \<lparr>cap = nat (quot (Children old) 2), buf = bs\<rparr>) \<and>
     fresh (snd (Recreate_body d s1)) = fresh s1 + 3 \<and>
     watchers (snd (Recreate_body d s1)) =
       watchers s1 @ (if Updatable m then [fresh s1 + 1] else [])"
proof -
  let ?new = "NewDaemon (BinPath old) (other_port old) (Children old) (Path m) (Test old)
             (Quite old) (Updatable m) s1"
  obtain r2 s2 where e2: "?new = (r2, s2)" by (cases ?new)
  from ok old m e2 obtain newVW where r2: "r2 = Inr newVW"
    by (cases r2) (simp_all add: Recreate_body_def)
  let ?nd0 = "\<lparr>BinPath = BinPath old, Port = other_port old, Children = Children old,
             Model = Some (fresh s1), Test = Test old, Quite = Quite old, TCPQueue = None\<rparr>"
  from NewDaemon_success [of "BinPath old" "other_port old" "Children old" "Path m" "Test old"
      "Quite old" "Updatable m" s1 newVW] e2 r2
  obtain info where info: "stats s1 (n_stats s1) (Path m) = Inr info"
    and nv: "newVW = fresh s1 + 1"
    and s2: "s2 = s1\<lparr>n_stats := n_stats s1 + 1,
         models := (models s1)(fresh s1 \<mapsto>
            \<lparr>Path = Path m, ModTime = info, Updatable = Updatable m\<rparr>),
         daemons := (daemons s1)(fresh s1 + 1 \<mapsto> ?nd0),
         fresh := fresh s1 + 2,
         watchers := watchers s1 @ (if Updatable m then [fresh s1 + 1] else [])\<rparr>"
    by auto
  obtain r3 s3 where e3: "Run newVW s2 = (r3, s3)" by (cases "Run newVW s2")
  from ok old m e2 r2 e3 have r3: "r3 = Inr ()"
    by (cases r3) (simp_all add: Recreate_body_def)
  have d2: "daemons s2 newVW = Some ?nd0" using s2 nv by simp
  from e3 r3 have ok3: "fst (Run newVW s2) = Inr ()" by simp
  from Run_result [OF ok3 d2] e3 obtain bs where
    bs: "length bs = nat (quot (Children old) 2)" and
    dm: "daemons s3 = (daemons s2)(newVW \<mapsto> ?nd0\<lparr>TCPQueue := Some (fresh s2)\<rparr>)" and
    mo: "models s3 = models s2" and
    ch: "chans s3 = (chans s2)(fresh s2 \<mapsto> \<lparr>cap = nat (quot (Children old) 2), buf = bs\<rparr>)" and
    fr: "fresh s3 = fresh s2 + 1" and
    wa: "watchers s3 = watchers s2"
    by auto
  let ?nd = "\<lparr>BinPath = BinPath old, Port = other_port old, Children = Children old,
             Model = Some (fresh s1), Test = Test old, Quite = Quite old,
             TCPQueue = Some (fresh s1 + 2)\<rparr>"
  have d3: "daemons s3 newVW = Some ?nd" using dm s2 by simp
  from old m e2 r2 e3 r3 d3
  have res: "Recreate_body d s1 = (Inr (), s3\<lparr>daemons := (daemons s3)(d \<mapsto> ?nd)\<rparr>)"
    by (simp add: Recreate_body_def)
  have "daemons (snd (Recreate_body d s1)) = (daemons s1)(fresh s1 + 1 \<mapsto> ?nd, d \<mapsto> ?nd)"
    using res dm s2 nv by simp
  moreover have "models (snd (Recreate_body d s1)) =
       (models s1)(fresh s1 \<mapsto> \<lparr>Path = Path m, ModTime = info, Updatable = Updatable m\<rparr>)"
    using res mo s2 by simp
  moreover have "chans (snd (Recreate_body d s1)) =
       (chans s1)(fresh s1 + 2 \<mapsto> \<lparr>cap = nat (quot (Children old) 2), buf = bs\<rparr>)"
    using res ch s2 by simp
  moreover have "fresh (snd (Recreate_body d s1)) = fresh s1 + 3"
    using res fr s2 by simp
  moreover have "watchers (snd (Recreate_body d s1)) =
       watchers s1 @ (if Updatable m then [fresh s1 + 1] else [])"
    using res wa s2 by simp
  ultimately show ?thesis using info bs by blast
qed

lemma Recreate_result:
  assumes ok: "fst (RecreateDaemon d st) = Inr ()" and old: "daemons st d = Some old"
    and lt: "d < fresh st"
  shows "\<exists>m info bs. model_of st old = Some m \<and> stats st (n_stats st) (Path m) = Inr info \<and>
     length bs = nat (quot (Children old) 2) \<and>
     daemons (snd (RecreateDaemon d st)) =
       (daemons st)
         (fresh st + 1 \<mapsto> old\<lparr>Model := Some (fresh st), TCPQueue := None\<rparr>,
          fresh st + 3 \<mapsto>
            \<lparr>BinPath = BinPath old, Port = other_port old, Children = Children old,
             Model = Some (fresh st + 2), Test = Test old, Quite = Quite old,
             TCPQueue = Some (fresh st + 4)\<rparr>,
          d \<mapsto>
            \<lparr>BinPath = BinPath old, Port = other_port old, Children = Children old,
             Model = Some (fresh st + 2), Test = Test old, Quite = Quite old,
             TCPQueue = Some (fresh st + 4)\<rparr>) \<and>
     models (snd (RecreateDaemon d st)) =
       (models st)(fresh st \<mapsto> m,
          fresh st + 2 \<mapsto> \<lparr>Path = Path m, ModTime = info, Updatable = Updatable m\<rparr>) \<and>
     chans (snd (RecreateDaemon d st)) =
       (chans st)(fresh st + 4 \<mapsto> \<lparr>cap = nat (quot (Children old) 2), buf = bs\<rparr>) \<and>
     fresh (snd (RecreateDaemon d st)) = fresh st + 5 \<and>
     watchers (snd (RecreateDaemon d st)) =
       watchers st @ (if Updatable m then [fresh st + 3] else [])"
proof -
  have m_ex: "model_of st old \<noteq> None"
  proof
    assume none: "model_of st old = None"
    let ?s1 = "st\<lparr>daemons := (daemons st)(fresh st \<mapsto> old\<lparr>Model := None, TCPQueue := None\<rparr>),
                   fresh := fresh st + 1\<rparr>"
    from none old have dc: "DeepCopy d st = (Inr (fresh st), ?s1)" by (simp add: DeepCopy_def)
    from lt old have "daemons ?s1 d = Some old" by simp
    moreover from none have "model_of ?s1 old = None"
      by (auto simp add: model_of_def split: option.splits)
    ultimately have "fst (Recreate_body d ?s1) = Inl Panic_Nil" by (simp add: Recreate_body_def)
    moreover from ok dc have "fst (Recreate_body d ?s1) = Inr ()"
      using deferred_ok [of "Stop_at (fresh st)" "Recreate_body d ?s1"]
      by (simp add: RecreateDaemon_def)
    ultimately show False by simp
  qed
  then obtain m where m: "model_of st old = Some m" by blast
  let ?copy = "old\<lparr>Model := Some (fresh st), TCPQueue := None\<rparr>"
  let ?s1 = "st\<lparr>models := (models st)(fresh st \<mapsto> m),
                 daemons := (daemons st)(fresh st + 1 \<mapsto> ?copy),
                 fresh := fresh st + 2\<rparr>"
  from m old have dc: "DeepCopy d st = (Inr (fresh st + 1), ?s1)" by (simp add: DeepCopy_def)
  from lt old have old1: "daemons ?s1 d = Some old" by simp
  from m have m1: "model_of ?s1 old = Some m"
    by (auto simp add: model_of_def split: option.splits)
  from ok dc have rd: "fst (deferred (Stop_at (fresh st + 1)) (Recreate_body d ?s1)) = Inr ()"
    "RecreateDaemon d st = deferred (Stop_at (fresh st + 1)) (Recreate_body d ?s1)"
    by (simp_all add: RecreateDaemon_def)
  from deferred_ok [OF rd(1)] have okb: "fst (Recreate_body d ?s1) = Inr ()"
    and fin: "RecreateDaemon d st = Stop_at (fresh st + 1) (snd (Recreate_body d ?s1))"
    using rd(2) by simp_all
  let ?nd = "\<lparr>BinPath = BinPath old, Port = other_port old, Children = Children old,
             Model = Some (fresh st + 2), Test = Test old, Quite = Quite old,
             TCPQueue = Some (fresh st + 4)\<rparr>"
  from Recreate_body_result [OF okb old1 m1] obtain info bs where
    info: "stats st (n_stats st) (Path m) = Inr info" and
    bs: "length bs = nat (quot (Children old) 2)" and
    dm: "daemons (snd (Recreate_body d ?s1)) =
          (daemons ?s1)(fresh st + 3 \<mapsto> ?nd, d \<mapsto> ?nd)" and
    mo: "models (snd (Recreate_body d ?s1)) =
       (models ?s1)(fresh st + 2 \<mapsto> \<lparr>Path = Path m, ModTime = info, Updatable = Updatable m\<rparr>)" and
    ch: "chans (snd (Recreate_body d ?s1)) =
       (chans ?s1)(fresh st + 4 \<mapsto> \<lparr>cap = nat (quot (Children old) 2), buf = bs\<rparr>)" and
    fr: "fresh (snd (Recreate_body d ?s1)) = fresh st + 5" and
    wa: "watchers (snd (Recreate_body d ?s1)) =
       watchers st @ (if Updatable m then [fresh st + 3] else [])"
    by (auto simp add: numeral_eq_Suc)
  from lt have "d \<noteq> fresh st + 1" by simp
  then have "daemons (snd (Recreate_body d ?s1)) (fresh st + 1) = Some ?copy"
    using dm by simp
  from Stop_at_state [OF this] fin obtain k where
    st': "snd (RecreateDaemon d st) =
      polled ?copy k (started (stop_command ?copy) (snd (Recreate_body d ?s1)))"
    by auto
  have "daemons (snd (RecreateDaemon d st)) =
      (daemons st)(fresh st + 1 \<mapsto> ?copy, fresh st + 3 \<mapsto> ?nd, d \<mapsto> ?nd)"
    using st' dm by simp
  moreover have "models (snd (RecreateDaemon d st)) =
       (models st)(fresh st \<mapsto> m,
          fresh st + 2 \<mapsto> \<lparr>Path = Path m, ModTime = info, Updatable = Updatable m\<rparr>)"
    using st' mo by simp
  moreover have "chans (snd (RecreateDaemon d st)) =
       (chans st)(fresh st + 4 \<mapsto> \<lparr>cap = nat (quot (Children old) 2), buf = bs\<rparr>)"
    using st' ch by simp
  moreover have "fresh (snd (RecreateDaemon d st)) = fresh st + 5"
    using st' fr by simp
  moreover have "watchers (snd (RecreateDaemon d st)) =
       watchers st @ (if Updatable m then [fresh st + 3] else [])"
    using st' wa by simp
  ultimately show ?thesis using m info bs by blast
qed

section \<open>What a recreate leaves untouched\<close>

lemma IsExist_stores [simp]:
  "daemons (snd (IsExist vw tries delay st)) = daemons st"
  "models (snd (IsExist vw tries delay st)) = models st"
  "fresh (snd (IsExist vw tries delay st)) = fresh st"
proof -
  obtain k where "snd (IsExist vw tries delay st) = polled vw k st"
    using IsExist_state by blast
  then show "daemons (snd (IsExist vw tries delay st)) = daemons st"
    "models (snd (IsExist vw tries delay st)) = models st"
    "fresh (snd (IsExist vw tries delay st)) = fresh st"
    by simp_all
qed

lemma Stop_stores [simp]:
  "daemons (snd (Stop vw st)) = daemons st"
  "models (snd (Stop vw st)) = models st"
  "fresh (snd (Stop vw st)) = fresh st"
proof -
  obtain k where "snd (Stop vw st) = polled vw k (started (stop_command vw) st)"
    using Stop_state by blast
  then show "daemons (snd (Stop vw st)) = daemons st"
    "models (snd (Stop vw st)) = models st"
    "fresh (snd (Stop vw st)) = fresh st"
    by simp_all
qed

lemma Stop_at_stores [simp]:
  "daemons (snd (Stop_at a st)) = daemons st"
  "models (snd (Stop_at a st)) = models st"
  by (simp_all add: Stop_at_def split: option.splits)

lemma fill_loop_stores:
  "nat (sz - i) = n \<Longrightarrow>
   daemons (snd (fill_loop vw sz i st)) = daemons st \<and>
   models (snd (fill_loop vw sz i st)) = models st"
proof (induction n arbitrary: i st)
  case 0
  then have "\<not> i < sz" by simp
  then show ?case by (subst fill_loop.simps, subst (2) fill_loop.simps) simp
next
  case (Suc n)
  then have lt: "i < sz" by simp
  from Suc.prems have n: "nat (sz - (i + 1)) = n" by simp
  note ih = Suc.IH [OF n]
  show ?case
    using lt ih
    by (subst fill_loop.simps, subst (2) fill_loop.simps)
       (auto simp add: getTCPConn_def chan_send_def split: dialled.splits option.splits)
qed

lemma makeTCPConnQueue_stores [simp]:
  "daemons (snd (makeTCPConnQueue vw st)) = daemons st"
  "models (snd (makeTCPConnQueue vw st)) = models st"
  using fill_loop_stores [of "quot (Children vw) 2" 0 _ vw st, OF refl]
  by (simp_all add: makeTCPConnQueue_def)

lemma Run_stores:
  "models (snd (Run a st)) = models st"
  "x \<noteq> a \<Longrightarrow> daemons (snd (Run a st)) x = daemons st x"
proof -
  have "models (snd (Run a st)) = models st \<and>
        (x \<noteq> a \<longrightarrow> daemons (snd (Run a st)) x = daemons st x)"
  proof (cases "daemons st a")
    case None
    then show ?thesis by (simp add: Run_def)
  next
    case (Some vw)
    obtain r1 s1 where e1: "IsExist vw 3 100 st = (r1, s1)" by (cases "IsExist vw 3 100 st")
    have f1: "daemons s1 = daemons st" "models s1 = models st"
      using IsExist_stores [of vw 3 100 st] e1 by simp_all
    show ?thesis
    proof (cases r1)
      case (Inl f)
      with Some e1 f1 show ?thesis by (simp add: Run_def)
    next
      case (Inr running)
      obtain r2 s2 where e2: "(if running then Stop vw s1 else (Inr (), s1)) = (r2, s2)"
        by (cases "if running then Stop vw s1 else (Inr (), s1)")
      from e2 have "s2 = (if running then snd (Stop vw s1) else s1)"
        by (auto split: if_splits)
      then have f2: "daemons s2 = daemons st" "models s2 = models st"
        using f1 by simp_all
      show ?thesis
      proof (cases r2)
        case (Inl f)
        with Some e1 Inr e2 f2 show ?thesis by (simp add: Run_def)
      next
        case r2: (Inr u)
        show ?thesis
        proof (cases "model_of s2 vw")
          case None
          with Some e1 Inr e2 r2 f2 show ?thesis by (simp add: Run_def)
        next
          case m: (Some m)
          let ?s3 = "started (start_command vw m) s2"
          obtain r4 s4 where e4: "IsExist vw 5 500 ?s3 = (r4, s4)"
            by (cases "IsExist vw 5 500 ?s3")
          have f4: "daemons s4 = daemons st" "models s4 = models st"
            using IsExist_stores [of vw 5 500 ?s3] e4 f2 by simp_all
          from Some e1 Inr e2 r2 m e4 f2 f4 show ?thesis
            by (cases "starts s2 (n_starts s2)"; cases r4)
               (auto simp add: Run_def runCommand_start Let_def split: bool.splits)
        qed
      qed
    qed
  qed
  then show "models (snd (Run a st)) = models st"
    and "x \<noteq> a \<Longrightarrow> daemons (snd (Run a st)) x = daemons st x"
    by simp_all
qed

lemma NewDaemon_stores:
  "a \<noteq> fresh st + 1 \<Longrightarrow>
     daemons (snd (NewDaemon binPath port children modelPath test quite updatable st)) a
       = daemons st a"
  "a \<noteq> fresh st \<Longrightarrow>
     models (snd (NewDaemon binPath port children modelPath test quite updatable st)) a
       = models st a"
  by (cases "stats st (n_stats st) modelPath";
      simp add: NewDaemon_def os_Stat_def Let_def)+

text \<open>A body that fails has not written to the handle; no body writes to an old model.\<close>

lemma Recreate_body_stores:
  "a \<noteq> fresh s1 \<Longrightarrow> models (snd (Recreate_body d s1)) a = models s1 a"
  "d \<noteq> fresh s1 + 1 \<Longrightarrow> fst (Recreate_body d s1) \<noteq> Inr () \<Longrightarrow>
     daemons (snd (Recreate_body d s1)) d = daemons s1 d"
proof -
  have "(a \<noteq> fresh s1 \<longrightarrow> models (snd (Recreate_body d s1)) a = models s1 a) \<and>
    (d \<noteq> fresh s1 + 1 \<longrightarrow> fst (Recreate_body d s1) \<noteq> Inr () \<longrightarrow>
       daemons (snd (Recreate_body d s1)) d = daemons s1 d)"
  proof (cases "daemons s1 d")
    case None
    then show ?thesis by (simp add: Recreate_body_def)
  next
    case (Some old)
    show ?thesis
    proof (cases "model_of s1 old")
      case None
      with Some show ?thesis by (simp add: Recreate_body_def)
    next
      case m: (Some m)
      let ?new = "NewDaemon (BinPath old) (other_port old) (Children old) (Path m) (Test old)
             (Quite old) (Updatable m) s1"
      obtain r2 s2 where e2: "?new = (r2, s2)" by (cases ?new)
      have f2: "a \<noteq> fresh s1 \<longrightarrow> models s2 a = models s1 a"
        "d \<noteq> fresh s1 + 1 \<longrightarrow> daemons s2 d = daemons s1 d"
        using NewDaemon_stores [of _ s1 "BinPath old" "other_port old" "Children old" "Path m"
          "Test old" "Quite old" "Updatable m"] e2 by auto
      show ?thesis
      proof (cases r2)
        case (Inl f)
        with Some m e2 f2 show ?thesis by (simp add: Recreate_body_def)
      next
        case (Inr newVW)
        with e2 have nv: "newVW = fresh s1 + 1"
          using NewDaemon_success [of "BinPath old" "other_port old" "Children old" "Path m"
            "Test old" "Quite old" "Updatable m" s1 newVW] by auto
        obtain r3 s3 where e3: "Run newVW s2 = (r3, s3)" by (cases "Run newVW s2")
        have f3: "models s3 = models s2" "d \<noteq> newVW \<longrightarrow> daemons s3 d = daemons s2 d"
          using Run_stores(1) [of newVW s2] Run_stores(2) [of d newVW s2] e3 by simp_all
        from Some m e2 Inr e3 f2 f3 nv show ?thesis
          by (cases r3; cases "daemons s3 newVW") (simp_all add: Recreate_body_def)
      qed
    qed
  qed
  then show "a \<noteq> fresh s1 \<Longrightarrow> models (snd (Recreate_body d s1)) a = models s1 a"
    and "d \<noteq> fresh s1 + 1 \<Longrightarrow> fst (Recreate_body d s1) \<noteq> Inr () \<Longrightarrow>
     daemons (snd (Recreate_body d s1)) d = daemons s1 d"
    by simp_all
qed

lemma deferred_Stop_at_stores:
  "daemons (snd (deferred (Stop_at a) r)) = daemons (snd r)"
  "models (snd (deferred (Stop_at a) r)) = models (snd r)"
proof -
  obtain x s where r: "r = (x, s)" by (cases r)
  obtain y t where g: "Stop_at a s = (y, t)" by (cases "Stop_at a s")
  have "daemons t = daemons s" "models t = models s"
    using Stop_at_stores [of a s] g by simp_all
  with r g show "daemons (snd (deferred (Stop_at a) r)) = daemons (snd r)"
    "models (snd (deferred (Stop_at a) r)) = models (snd r)"
    by (cases x; cases y; simp add: deferred_def)+
qed

lemma DeepCopy_stores:
  assumes "daemons st d = Some old"
  shows "fst (DeepCopy d st) = Inr (fresh (snd (DeepCopy d st)) - 1)"
    "fresh st < fresh (snd (DeepCopy d st))"
    "a < fresh st \<Longrightarrow> daemons (snd (DeepCopy d st)) a = daemons st a"
    "a < fresh st \<Longrightarrow> models (snd (DeepCopy d st)) a = models st a"
  using assms by (cases "model_of st old"; simp add: DeepCopy_def)+

lemma Recreate_keeps:
  assumes old: "daemons st d = Some old" and lt: "d < fresh st"
  shows "a < fresh st \<Longrightarrow> models (snd (RecreateDaemon d st)) a = models st a"
    "fst (Recreate_body d (snd (DeepCopy d st))) \<noteq> Inr () \<Longrightarrow>
       daemons (snd (RecreateDaemon d st)) d = Some old"
proof -
  obtain tmp s1 where dc: "DeepCopy d st = (Inr tmp, s1)"
    using DeepCopy_stores(1) [OF old] by (cases "DeepCopy d st") auto
  have s1: "fresh st < fresh s1" "daemons s1 d = daemons st d"
    "\<And>a. a < fresh st \<Longrightarrow> models s1 a = models st a"
    using DeepCopy_stores(2-4) [OF old] dc lt by simp_all
  have rd: "RecreateDaemon d st = deferred (Stop_at tmp) (Recreate_body d s1)"
    using dc by (simp add: RecreateDaemon_def)
  show "models (snd (RecreateDaemon d st)) a = models st a" if "a < fresh st"
  proof -
    from that s1(1) have "a \<noteq> fresh s1" by simp
    then show ?thesis
      using rd s1(3) [OF that] by (simp add: deferred_Stop_at_stores Recreate_body_stores(1))
  qed
  show "daemons (snd (RecreateDaemon d st)) d = Some old"
    if "fst (Recreate_body d (snd (DeepCopy d st))) \<noteq> Inr ()"
  proof -
    from lt s1(1) have "d \<noteq> fresh s1 + 1" by simp
    moreover from that dc have "fst (Recreate_body d s1) \<noteq> Inr ()" by simp
    ultimately show ?thesis
      using rd s1(2) old by (simp add: deferred_Stop_at_stores Recreate_body_stores(2))
  qed
qed

section \<open>The claims about recreating\<close>

lemmas recreate_eval =
  run_eval Stop_at_def RecreateDaemon_def Recreate_body_def deferred_def DeepCopy_def
  NewDaemon_def os_Stat_def other_port_def DefaultPort_def

lemma Recreate_example: "fst (RecreateDaemon 0 example_state) = Inr ()"
  by (simp add: recreate_eval example_defs)

lemma Recreate_example_twice:
  "fst (RecreateDaemon 0 (snd (RecreateDaemon 0 example_state))) = Inr ()"
  by (simp add: recreate_eval example_defs)

lemma Recreate_broken:
  "fst (Recreate_body 0 (snd (DeepCopy 0 broken_state))) = Inl Fatal_Workers_Count"
  by (simp add: recreate_eval example_defs broken_state_def)

lemma example_fresh: "fresh example_state = 2" "(0::nat) < fresh example_state"
  by (simp_all add: example_state_def)

lemma broken_handle:
  "daemons broken_state 0 = Some example_daemon" "(0::nat) < fresh broken_state"
  "models broken_state 0 = Some example_model"
  by (simp_all add: broken_state_def example_state_def)

text \<open>
  C1.  After a successful \<^verbatim>\<open>RecreateDaemon\<close> on the handle at \<open>d\<close>, whoever reads
  through \<open>d\<close> reads the fields of the new daemon, the one \<^verbatim>\<open>NewDaemon\<close> allocated (at
  \<open>fresh st + 3\<close>) and \<^verbatim>\<open>Run\<close> started: its port, which is the other one of the two, its
  model and its queue.  \<^verbatim>\<open>RecreateDaemon\<close> returns nothing; the handle is overwritten in
  place.
\<close>

theorem Recreate_in_place:
  assumes "fst (RecreateDaemon d st) = Inr ()" and "daemons st d = Some old"
    and "d < fresh st"
  shows "\<exists>new. daemons (snd (RecreateDaemon d st)) d = Some new \<and>
     daemons (snd (RecreateDaemon d st)) (fresh st + 3) = Some new \<and>
     Port new = (if Port old = DefaultPort then DefaultPort + 1 else DefaultPort) \<and>
     Model new = Some (fresh st + 2) \<and> TCPQueue new = Some (fresh st + 4) \<and>
     (\<exists>q. chans (snd (RecreateDaemon d st)) (fresh st + 4) = Some q \<and>
          cap q = nat (quot (Children old) 2))"
proof -
  let ?nd = "\<lparr>BinPath = BinPath old, Port = other_port old, Children = Children old,
             Model = Some (fresh st + 2), Test = Test old, Quite = Quite old,
             TCPQueue = Some (fresh st + 4)\<rparr>"
  from Recreate_result [OF assms] obtain bs where
    dm: "daemons (snd (RecreateDaemon d st)) =
       (daemons st)
         (fresh st + 1 \<mapsto> old\<lparr>Model := Some (fresh st), TCPQueue := None\<rparr>,
          fresh st + 3 \<mapsto> ?nd, d \<mapsto> ?nd)" and
    ch: "chans (snd (RecreateDaemon d st)) =
       (chans st)(fresh st + 4 \<mapsto> \<lparr>cap = nat (quot (Children old) 2), buf = bs\<rparr>)" and
    bs: "length bs = nat (quot (Children old) 2)"
    by blast
  have "daemons (snd (RecreateDaemon d st)) d = Some ?nd" using dm by simp
  moreover from assms(3) have "daemons (snd (RecreateDaemon d st)) (fresh st + 3) = Some ?nd"
    using dm by simp
  moreover have "Port ?nd = (if Port old = DefaultPort then DefaultPort + 1 else DefaultPort)"
    by (simp add: other_port_def)
  moreover have "\<exists>q. chans (snd (RecreateDaemon d st)) (fresh st + 4) = Some q \<and>
          cap q = nat (quot (Children old) 2)"
    using ch by simp
  ultimately show ?thesis by simp
qed


theorem Recreate_in_place_witness:
  "fst (RecreateDaemon 0 example_state) = Inr () \<and>
   daemons example_state 0 = Some example_daemon \<and> (0::nat) < fresh example_state \<and>
   Port example_daemon = DefaultPort \<and>
   map_option Port (daemons (snd (RecreateDaemon 0 example_state)) 0) = Some 26543 \<and>
   daemons (snd (RecreateDaemon 0 example_state)) 0
     = daemons (snd (RecreateDaemon 0 example_state)) 5 \<and>
   map_option TCPQueue (daemons (snd (RecreateDaemon 0 example_state)) 0) = Some (Some 6)"
proof -
  have p: "Port example_daemon = DefaultPort" by (simp add: example_daemon_def DefaultPort_def)
  from Recreate_in_place [OF Recreate_example example_handle(1) example_fresh(2)]
  obtain new where "daemons (snd (RecreateDaemon 0 example_state)) 0 = Some new"
    "daemons (snd (RecreateDaemon 0 example_state)) (fresh example_state + 3) = Some new"
    "Port new = (if Port example_daemon = DefaultPort then DefaultPort + 1 else DefaultPort)"
    "TCPQueue new = Some (fresh example_state + 4)"
    by blast
  with p show ?thesis
    by (simp add: Recreate_example example_handle example_fresh DefaultPort_def)
qed

text \<open>
  C2.  The port after a successful recreate is the default port plus one when the handle was
  on the default port, and the default port otherwise; a second successful recreate gives
  the other of these two ports again.
\<close>

theorem Recreate_alternates:
  assumes "fst (RecreateDaemon d st) = Inr ()" and "daemons st d = Some old"
    and "d < fresh st"
    and "fst (RecreateDaemon d (snd (RecreateDaemon d st))) = Inr ()"
  shows "map_option Port (daemons (snd (RecreateDaemon d st)) d) =
       Some (if Port old = DefaultPort then DefaultPort + 1 else DefaultPort) \<and>
     map_option Port (daemons (snd (RecreateDaemon d (snd (RecreateDaemon d st)))) d) =
       Some (if Port old = DefaultPort then DefaultPort else DefaultPort + 1)"
proof -
  let ?st1 = "snd (RecreateDaemon d st)"
  let ?nd = "\<lparr>BinPath = BinPath old, Port = other_port old, Children = Children old,
             Model = Some (fresh st + 2), Test = Test old, Quite = Quite old,
             TCPQueue = Some (fresh st + 4)\<rparr>"
  from Recreate_result [OF assms(1-3)] have
    d1: "daemons ?st1 d = Some ?nd" and f1: "fresh ?st1 = fresh st + 5"
    by auto
  from assms(3) f1 have lt1: "d < fresh ?st1" by simp
  let ?nd2 = "\<lparr>BinPath = BinPath ?nd, Port = other_port ?nd, Children = Children ?nd,
             Model = Some (fresh ?st1 + 2), Test = Test ?nd, Quite = Quite ?nd,
             TCPQueue = Some (fresh ?st1 + 4)\<rparr>"
  from Recreate_result [OF assms(4) d1 lt1] have
    "daemons (snd (RecreateDaemon d ?st1)) =
       (daemons ?st1)
         (fresh ?st1 + 1 \<mapsto> ?nd\<lparr>Model := Some (fresh ?st1), TCPQueue := None\<rparr>,
          fresh ?st1 + 3 \<mapsto> ?nd2, d \<mapsto> ?nd2)"
    by blast
  then have d2: "daemons (snd (RecreateDaemon d ?st1)) d = Some ?nd2" by simp
  have "other_port old = (if Port old = DefaultPort then DefaultPort + 1 else DefaultPort)"
    by (simp add: other_port_def)
  moreover have "other_port ?nd = (if Port old = DefaultPort then DefaultPort else DefaultPort + 1)"
    by (simp add: other_port_def DefaultPort_def)
  ultimately show ?thesis using d1 d2 by simp
qed

theorem Recreate_alternates_witness:
  "fst (RecreateDaemon 0 example_state) = Inr () \<and>
   daemons example_state 0 = Some example_daemon \<and> (0::nat) < fresh example_state \<and>
   fst (RecreateDaemon 0 (snd (RecreateDaemon 0 example_state))) = Inr () \<and>
   map_option Port (daemons example_state 0) = Some 26542 \<and>
   map_option Port (daemons (snd (RecreateDaemon 0 example_state)) 0) = Some 26543 \<and>
   map_option Port (daemons (snd (RecreateDaemon 0 (snd (RecreateDaemon 0 example_state)))) 0)
     = Some 26542"
proof -
  have p: "Port example_daemon = 26542" by (simp add: example_daemon_def)
  from Recreate_alternates [OF Recreate_example example_handle(1) example_fresh(2)
      Recreate_example_twice] p
  show ?thesis
    by (simp add: Recreate_example Recreate_example_twice example_handle example_fresh
        DefaultPort_def)
qed

text \<open>
  C3.  The daemon a successful recreate has made, which the handle at \<open>d\<close> then holds, has
  the binary path, the worker count, the test flag and the quiet flag of the old handle, and
  a model with the old path and updatable flag; its port is not the old port.
\<close>

theorem Recreate_same_settings:
  assumes "fst (RecreateDaemon d st) = Inr ()" and "daemons st d = Some old"
    and "d < fresh st" and "model_of st old = Some m"
  shows "\<exists>new m'. daemons (snd (RecreateDaemon d st)) (fresh st + 3) = Some new \<and>
     daemons (snd (RecreateDaemon d st)) d = Some new \<and>
     handle_model (snd (RecreateDaemon d st)) d = Some m' \<and>
     BinPath new = BinPath old \<and> Children new = Children old \<and> Path m' = Path m \<and>
     Test new = Test old \<and> Quite new = Quite old \<and> Updatable m' = Updatable m \<and>
     Port new \<noteq> Port old"
proof -
  let ?nd = "\<lparr>BinPath = BinPath old, Port = other_port old, Children = Children old,
             Model = Some (fresh st + 2), Test = Test old, Quite = Quite old,
             TCPQueue = Some (fresh st + 4)\<rparr>"
  from Recreate_result [OF assms(1-3)] assms(4) obtain info where
    dm: "daemons (snd (RecreateDaemon d st)) =
       (daemons st)
         (fresh st + 1 \<mapsto> old\<lparr>Model := Some (fresh st), TCPQueue := None\<rparr>,
          fresh st + 3 \<mapsto> ?nd, d \<mapsto> ?nd)" and
    mo: "models (snd (RecreateDaemon d st)) =
       (models st)(fresh st \<mapsto> m,
          fresh st + 2 \<mapsto> \<lparr>Path = Path m, ModTime = info, Updatable = Updatable m\<rparr>)"
    by auto
  let ?m = "\<lparr>Path = Path m, ModTime = info, Updatable = Updatable m\<rparr>"
  have "daemons (snd (RecreateDaemon d st)) d = Some ?nd" using dm by simp
  moreover from assms(3) have "daemons (snd (RecreateDaemon d st)) (fresh st + 3) = Some ?nd"
    using dm by simp
  moreover have "handle_model (snd (RecreateDaemon d st)) d = Some ?m"
    using dm mo by (simp add: handle_model_def model_of_def)
  moreover have "Port ?nd \<noteq> Port old" by (simp add: other_port_def)
  ultimately show ?thesis by simp
qed

theorem Recreate_same_settings_witness:
  "fst (RecreateDaemon 0 example_state) = Inr () \<and>
   daemons example_state 0 = Some example_daemon \<and> (0::nat) < fresh example_state \<and>
   model_of example_state example_daemon = Some example_model \<and>
   map_option BinPath (daemons (snd (RecreateDaemon 0 example_state)) 5) = Some ''/opt/vw/bin/vw'' \<and>
   map_option Children (daemons (snd (RecreateDaemon 0 example_state)) 5) = Some 2 \<and>
   map_option Test (daemons (snd (RecreateDaemon 0 example_state)) 5) = Some True \<and>
   map_option Quite (daemons (snd (RecreateDaemon 0 example_state)) 5) = Some True \<and>
   map_option Path (handle_model (snd (RecreateDaemon 0 example_state)) 0) = Some ''/srv/model.vw'' \<and>
   map_option Updatable (handle_model (snd (RecreateDaemon 0 example_state)) 0) = Some True"
proof -
  from Recreate_same_settings [OF Recreate_example example_handle(1) example_fresh(2)
      example_handle(2)]
  obtain new m' where "daemons (snd (RecreateDaemon 0 example_state)) (fresh example_state + 3) = Some new"
    "handle_model (snd (RecreateDaemon 0 example_state)) 0 = Some m'"
    "BinPath new = BinPath example_daemon" "Children new = Children example_daemon"
    "Path m' = Path example_model" "Test new = Test example_daemon"
    "Quite new = Quite example_daemon" "Updatable m' = Updatable example_model"
    by blast
  moreover have "BinPath example_daemon = ''/opt/vw/bin/vw''" "Children example_daemon = 2"
    "Test example_daemon" "Quite example_daemon" "Path example_model = ''/srv/model.vw''"
    "Updatable example_model"
    by (simp_all add: example_daemon_def example_model_def)
  ultimately show ?thesis
    by (simp add: Recreate_example example_handle example_fresh)
qed

lemma IsChanged_result:
  assumes "models st ma = Some mr" and "stats st (n_stats st) (Path mr) = Inr t"
  shows "IsChanged (Some ma) st = (Inr (ModTime mr \<noteq> t), st\<lparr>n_stats := n_stats st + 1\<rparr>)"
  using assms by (simp add: IsChanged_def os_Stat_def)

text \<open>A round of the watcher recreates the daemon exactly when the file's time has changed.\<close>

lemma modelFileChecker_round_result:
  assumes "daemons st vw = Some d" and "Model d = Some ma" and "models st ma = Some mr"
    and "stats st (n_stats st) (Path mr) = Inr t"
  shows "modelFileChecker_round vw st =
    (if ModTime mr \<noteq> t then RecreateDaemon vw (st\<lparr>n_stats := n_stats st + 1\<rparr>)
     else (Inr (), st\<lparr>n_stats := n_stats st + 1\<rparr>))"
  using assms by (simp add: modelFileChecker_round_def IsChanged_result)

text \<open>
  C9.  When the stat succeeds, \<^verbatim>\<open>IsChanged\<close> returns whether the time it reports differs
  from the stored one, and it writes to no model and no handle.  A recreate never writes to
  the model the handle had.  The time a holder of the handle reads is the old one when the
  new daemon could not be made and run, and the time of the new stat after a successful
  recreate.
\<close>

theorem stored_timestamp:
  "(models st ma = Some mr \<and> stats st (n_stats st) (Path mr) = Inr t \<longrightarrow>
      fst (IsChanged (Some ma) st) = Inr (ModTime mr \<noteq> t) \<and>
      models (snd (IsChanged (Some ma) st)) = models st \<and>
      daemons (snd (IsChanged (Some ma) st)) = daemons st) \<and>
   (daemons st d = Some old \<and> d < fresh st \<and> Model old = Some ma \<and> ma < fresh st \<and>
    models st ma = Some mr \<longrightarrow>
      models (snd (RecreateDaemon d st)) ma = Some mr \<and>
      (fst (Recreate_body d (snd (DeepCopy d st))) \<noteq> Inr () \<longrightarrow>
         stored_time (snd (RecreateDaemon d st)) d = Some (ModTime mr)) \<and>
      (fst (RecreateDaemon d st) = Inr () \<longrightarrow>
         (\<exists>info. stats st (n_stats st) (Path mr) = Inr info \<and>
            stored_time (snd (RecreateDaemon d st)) d = Some info)))"
proof (intro conjI impI)
  assume "models st ma = Some mr \<and> stats st (n_stats st) (Path mr) = Inr t"
  then have "IsChanged (Some ma) st = (Inr (ModTime mr \<noteq> t), st\<lparr>n_stats := n_stats st + 1\<rparr>)"
    by (simp add: IsChanged_result)
  then show "fst (IsChanged (Some ma) st) = Inr (ModTime mr \<noteq> t)"
    and "models (snd (IsChanged (Some ma) st)) = models st"
    and "daemons (snd (IsChanged (Some ma) st)) = daemons st"
    by simp_all
next
  assume a: "daemons st d = Some old \<and> d < fresh st \<and> Model old = Some ma \<and> ma < fresh st \<and>
    models st ma = Some mr"
  then have old: "daemons st d = Some old" and lt: "d < fresh st" and ma: "Model old = Some ma"
    and malt: "ma < fresh st" and mr: "models st ma = Some mr"
    by simp_all
  from Recreate_keeps(1) [OF old lt malt] mr
  show keep: "models (snd (RecreateDaemon d st)) ma = Some mr" by simp
  {
    assume "fst (Recreate_body d (snd (DeepCopy d st))) \<noteq> Inr ()"
    from Recreate_keeps(2) [OF old lt this] keep ma
    show "stored_time (snd (RecreateDaemon d st)) d = Some (ModTime mr)"
      by (simp add: stored_time_def handle_model_def model_of_def)
  }
  {
    assume ok: "fst (RecreateDaemon d st) = Inr ()"
    from ma mr have m: "model_of st old = Some mr" by (simp add: model_of_def)
    let ?nd = "\<lparr>BinPath = BinPath old, Port = other_port old, Children = Children old,
             Model = Some (fresh st + 2), Test = Test old, Quite = Quite old,
             TCPQueue = Some (fresh st + 4)\<rparr>"
    from Recreate_result [OF ok old lt] m obtain info where
      info: "stats st (n_stats st) (Path mr) = Inr info" and
      dm: "daemons (snd (RecreateDaemon d st)) =
       (daemons st)
         (fresh st + 1 \<mapsto> old\<lparr>Model := Some (fresh st), TCPQueue := None\<rparr>,
          fresh st + 3 \<mapsto> ?nd, d \<mapsto> ?nd)" and
      mo: "models (snd (RecreateDaemon d st)) =
       (models st)(fresh st \<mapsto> mr,
          fresh st + 2 \<mapsto> \<lparr>Path = Path mr, ModTime = info, Updatable = Updatable mr\<rparr>)"
      by auto
    have "stored_time (snd (RecreateDaemon d st)) d = Some info"
      using dm mo by (simp add: stored_time_def handle_model_def model_of_def)
    with info show "\<exists>info. stats st (n_stats st) (Path mr) = Inr info \<and>
            stored_time (snd (RecreateDaemon d st)) d = Some info"
      by blast
  }
qed

theorem stored_timestamp_witness:
  "models example_state 0 = Some example_model \<and>
   stats example_state (n_stats example_state) (Path example_model) = Inr 200 \<and>
   ModTime example_model = 100 \<and>
   fst (IsChanged (Some 0) example_state) = Inr True \<and>
   models (snd (IsChanged (Some 0) example_state)) 0 = Some example_model \<and>
   daemons example_state 0 = Some example_daemon \<and> (0::nat) < fresh example_state \<and>
   Model example_daemon = Some 0 \<and>
   fst (RecreateDaemon 0 example_state) = Inr () \<and>
   models (snd (RecreateDaemon 0 example_state)) 0 = Some example_model \<and>
   stored_time (snd (RecreateDaemon 0 example_state)) 0 = Some 200 \<and>
   daemons broken_state 0 = Some example_daemon \<and> (0::nat) < fresh broken_state \<and>
   models broken_state 0 = Some example_model \<and>
   fst (Recreate_body 0 (snd (DeepCopy 0 broken_state))) \<noteq> Inr () \<and>
   stored_time (snd (RecreateDaemon 0 broken_state)) 0 = Some 100"
proof -
  have e: "models example_state 0 = Some example_model"
    "stats example_state (n_stats example_state) (Path example_model) = Inr 200"
    "ModTime example_model = 100" "Model example_daemon = Some 0"
    by (simp_all add: example_defs)
  have b: "fst (Recreate_body 0 (snd (DeepCopy 0 broken_state))) \<noteq> Inr ()"
    by (simp add: Recreate_broken)
  note ex = stored_timestamp [of example_state 0 example_model 200 0 example_daemon]
  note br = stored_timestamp [of broken_state 0 example_model _ 0 example_daemon]
  from ex e have "fst (IsChanged (Some 0) example_state) = Inr True"
    "models (snd (IsChanged (Some 0) example_state)) 0 = Some example_model"
    by simp_all
  moreover from ex e example_handle(1) example_fresh(2) Recreate_example
  have "models (snd (RecreateDaemon 0 example_state)) 0 = Some example_model"
    "stored_time (snd (RecreateDaemon 0 example_state)) 0 = Some 200"
    by simp_all
  moreover from br e broken_handle b
  have "stored_time (snd (RecreateDaemon 0 broken_state)) 0 = Some 100"
    by simp
  ultimately show ?thesis
    using e b example_handle(1) example_fresh(2) Recreate_example broken_handle by simp
qed

end
